theory Spec2Isabelle
  imports Complex_Main "HOL-Library.Log_Nat"
begin

section \<open>The resilient fetch wrapper of \<^verbatim>\<open>src/services/networkClient.ts\<close>\<close>

text \<open>
  The theory embeds \<^verbatim>\<open>resilientFetch\<close> and the error class it throws. The function is
  asynchronous and talks to three things it does not control: the request issuer
  \<^verbatim>\<open>fetch\<close>, the caller's \<^verbatim>\<open>AbortSignal\<close> and the per-attempt timer. The model makes
  them inputs: every reading the code takes of them is a value the world supplies, and the
  effects of a call (issuer invocations, console output, waits) are returned as a trace.

  Every call of \<^verbatim>\<open>fetch\<close> is taken to settle (with a response or an exception).
\<close>

subsection \<open>Numbers\<close>

text \<open>
  A JavaScript number is a binary64 value. The durations and the backoff factor are
  modelled as such: the program multiplies them (\<^verbatim>\<open>currentDelay *= backoffFactor\<close>), and
  the product of two doubles is the exact product rounded to the nearest double, ties to
  the even significand, with gradual underflow and overflow to an infinity. \<open>Finite q\<close>
  is the double of value \<open>q\<close>; the two zeros are not distinguished, since the program
  hands a delay to \<^verbatim>\<open>setTimeout\<close> and to \<^verbatim>\<open>*\<close> only.
\<close>

datatype JSNumber = Finite rat | PosInfinity | NegInfinity | NaN

definition pow2 :: "int \<Rightarrow> rat" where
  "pow2 e = (if 0 \<le> e then 2 ^ nat e else 1 / 2 ^ nat (- e))"

text \<open>For \<open>x > 0\<close>, the exponent \<open>e\<close> with \<open>2^e \<le> x < 2^(e+1)\<close>.\<close>

definition floorLog2 :: "rat \<Rightarrow> int" where
  "floorLog2 x = (if 1 \<le> x then bitlen \<lfloor>x\<rfloor> - 1 else - bitlen (\<lceil>1 / x\<rceil> - 1))"

text \<open>The nearest integer, a tie going to the even one.\<close>

definition roundHalfEven :: "rat \<Rightarrow> int" where
  "roundHalfEven x =
     (let f = \<lfloor>x\<rfloor>; r = x - of_int f
      in if r < 1 / 2 then f else if 1 / 2 < r then f + 1 else if even f then f else f + 1)"

text \<open>
  The double nearest to \<open>x\<close>: a significand of 53 bits, the exponent of the leading bit
  not below \<open>-1022\<close>, and an infinity when the rounded value reaches \<open>2^1024\<close>.
\<close>

definition roundDouble :: "rat \<Rightarrow> JSNumber" where
  "roundDouble x =
     (if x = 0 then Finite 0
      else
        let e = max (floorLog2 \<bar>x\<bar>) (- 1022);
            ulp = pow2 (e - 52);
            y = of_int (roundHalfEven (x / ulp)) * ulp
        in if pow2 1024 \<le> \<bar>y\<bar> then (if 0 < x then PosInfinity else NegInfinity)
           else Finite y)"

text \<open>The operator \<^verbatim>\<open>*\<close> on numbers.\<close>

fun jsTimes :: "JSNumber \<Rightarrow> JSNumber \<Rightarrow> JSNumber" where
  "jsTimes NaN y = NaN"
| "jsTimes x NaN = NaN"
| "jsTimes (Finite x) (Finite y) = roundDouble (x * y)"
| "jsTimes (Finite x) PosInfinity =
     (if x = 0 then NaN else if 0 < x then PosInfinity else NegInfinity)"
| "jsTimes (Finite x) NegInfinity =
     (if x = 0 then NaN else if 0 < x then NegInfinity else PosInfinity)"
| "jsTimes PosInfinity (Finite y) =
     (if y = 0 then NaN else if 0 < y then PosInfinity else NegInfinity)"
| "jsTimes NegInfinity (Finite y) =
     (if y = 0 then NaN else if 0 < y then NegInfinity else PosInfinity)"
| "jsTimes PosInfinity PosInfinity = PosInfinity"
| "jsTimes PosInfinity NegInfinity = NegInfinity"
| "jsTimes NegInfinity PosInfinity = NegInfinity"
| "jsTimes NegInfinity NegInfinity = PosInfinity"

text \<open>
  \<^verbatim>\<open>retries\<close> is a number too, and need not be an integer. The program only adds 1 to it
  and compares the attempt counter with the sum, so it is modelled by its exact value, a
  rational, and the attempt counter by an integer; \<^verbatim>\<open>retries + 1\<close> and \<^verbatim>\<open>attempt++\<close>
  are exact in binary64 for the integers below \<open>2^53\<close> and for the halves used below.
  A \<^verbatim>\<open>retries\<close> that is \<^verbatim>\<open>NaN\<close> or infinite is outside the model (with
  \<^verbatim>\<open>Infinity\<close> a call need not end). HTTP statuses are natural numbers.
\<close>

subsection \<open>The error class\<close>

datatype ResilientFetchErrorCode = timeout | aborted | offline | network | server

text \<open>
  \<^verbatim>\<open>class ResilientFetchError extends Error\<close>: the constructor stores its three
  arguments. The constant \<^verbatim>\<open>name\<close> field is left out.
\<close>

record ResilientFetchError =
  message :: string
  code :: ResilientFetchErrorCode
  status :: "nat option"

definition mkError :: "string \<Rightarrow> ResilientFetchErrorCode \<Rightarrow> nat option \<Rightarrow> ResilientFetchError" where
  "mkError m c s = \<lparr>message = m, code = c, status = s\<rparr>"

subsection \<open>What the world supplies\<close>

text \<open>
  A response is read through \<^verbatim>\<open>response.ok\<close> and \<^verbatim>\<open>response.status\<close> only. The
  platform's \<^verbatim>\<open>ok\<close> getter is true exactly for the statuses 200 to 299. The status of
  a response is the field \<open>httpStatus\<close>, since \<open>status\<close> names the field of the error.
\<close>

record Response =
  httpStatus :: nat

definition ok :: "Response \<Rightarrow> bool" where
  "ok response = (200 \<le> httpStatus response \<and> httpStatus response \<le> 299)"

text \<open>
  What a \<^verbatim>\<open>catch\<close> clause can receive, by the \<^verbatim>\<open>instanceof\<close> tests the source
  applies to it: a \<^verbatim>\<open>TypeError\<close>, a \<^verbatim>\<open>ResilientFetchError\<close>, another
  \<^verbatim>\<open>Error\<close> (with its message), or a value that is no \<^verbatim>\<open>Error\<close> at all.
\<close>

datatype Thrown =
    TypeError string
  | Resilient ResilientFetchError
  | OtherError string
  | NonError

datatype FetchOutcome = Resolves Response | Rejects Thrown

text \<open>
  The two places of attempt \<open>k\<close> where the caller's signal is read: the top of the loop
  body (line 102) and the catch clause (line 153). An \<^verbatim>\<open>AbortSignal\<close> is modelled by
  the value of its \<^verbatim>\<open>aborted\<close> flag at each of them.
\<close>

datatype Point = AtStart int | AtCatch int

type_synonym AbortSignal = "Point \<Rightarrow> bool"

text \<open>
  \<open>fetch world k\<close> is what the call of \<^verbatim>\<open>fetch\<close> in attempt \<open>k\<close> settles to;
  \<open>timerFired world k\<close> tells whether the timeout callback of attempt \<open>k\<close> ran
  (calling \<^verbatim>\<open>controller.abort()\<close>) before the attempt's catch clause reads the
  controller. \<^verbatim>\<open>setTimeout\<close> and \<^verbatim>\<open>clearTimeout\<close> act on the call through this
  reading only, so \<^verbatim>\<open>timeoutMs\<close> does not occur in the loop below. The world is not
  constrained: a theorem that needs the signal to stay quiet or the timer not to fire
  says so.
\<close>

record World =
  fetch :: "int \<Rightarrow> FetchOutcome"
  timerFired :: "int \<Rightarrow> bool"

subsection \<open>Options and their defaults\<close>

record ResilientFetchOptions =
  timeoutMs :: "JSNumber option"
  retries :: "rat option"
  retryDelayMs :: "JSNumber option"
  backoffFactor :: "JSNumber option"
  abortSignal :: "AbortSignal option"
  retryOnStatuses :: "nat list option"

text \<open>The constants bound by the destructuring pattern of lines 81 to 89.\<close>

definition timeoutMsOf :: "ResilientFetchOptions \<Rightarrow> JSNumber" where
  "timeoutMsOf options = (case timeoutMs options of None \<Rightarrow> Finite 30000 | Some t \<Rightarrow> t)"

definition retriesOf :: "ResilientFetchOptions \<Rightarrow> rat" where
  "retriesOf options = (case retries options of None \<Rightarrow> 2 | Some n \<Rightarrow> n)"

definition retryDelayMsOf :: "ResilientFetchOptions \<Rightarrow> JSNumber" where
  "retryDelayMsOf options = (case retryDelayMs options of None \<Rightarrow> Finite 1500 | Some d \<Rightarrow> d)"

definition backoffFactorOf :: "ResilientFetchOptions \<Rightarrow> JSNumber" where
  "backoffFactorOf options = (case backoffFactor options of None \<Rightarrow> Finite 2 | Some f \<Rightarrow> f)"

definition retryOnStatusesOf :: "ResilientFetchOptions \<Rightarrow> nat list" where
  "retryOnStatusesOf options =
     (case retryOnStatuses options of None \<Rightarrow> [408, 429, 500, 502, 503, 504] | Some l \<Rightarrow> l)"

definition maxAttempts :: "ResilientFetchOptions \<Rightarrow> rat" where
  "maxAttempts options = retriesOf options + 1"

text \<open>\<^verbatim>\<open>abortSignal?.aborted\<close>, read at a point: false when no signal was supplied.\<close>

definition signalAborted :: "ResilientFetchOptions \<Rightarrow> Point \<Rightarrow> bool" where
  "signalAborted options p = (case abortSignal options of None \<Rightarrow> False | Some s \<Rightarrow> s p)"

text \<open>
  \<^verbatim>\<open>controller.signal.aborted\<close> in the catch clause of attempt \<open>k\<close>. The controller of
  an attempt is aborted by the timeout callback and by the listener the attempt put on
  the caller's signal.
\<close>

definition controllerAborted :: "ResilientFetchOptions \<Rightarrow> World \<Rightarrow> int \<Rightarrow> bool" where
  "controllerAborted options world k = (timerFired world k \<or> signalAborted options (AtCatch k))"

subsection \<open>Template strings\<close>

definition digit :: "nat \<Rightarrow> char" where
  "digit n = ''0123456789'' ! n"

fun showNat :: "nat \<Rightarrow> string" where
  "showNat n = (if n < 10 then [digit n] else showNat (n div 10) @ [digit (n mod 10)])"

declare showNat.simps [simp del]

subsection \<open>The attempt loop\<close>

text \<open>
  The trace of a call: \<open>Fetch k\<close> is the invocation of the request issuer in attempt
  \<open>k\<close>, \<open>DelayMs d\<close> the wait \<^verbatim>\<open>await delay(d)\<close>, and \<open>ConsoleLog a r c\<close> the line
  \<^verbatim>\<open>[NetworkClient] Retry ${a}/${r} after ...\<close> written by \<^verbatim>\<open>console.log\<close>, given by
  the values it interpolates: the attempt, \<^verbatim>\<open>retries\<close>, and the status, \<^verbatim>\<open>timeout\<close> or
  \<^verbatim>\<open>network error\<close> that ends it.
\<close>

datatype RetryCause = AfterStatus nat | AfterTimeout | AfterNetworkError

datatype Event = Fetch int | ConsoleLog int rat RetryCause | DelayMs JSNumber

text \<open>The variables the loop carries: \<^verbatim>\<open>attempt\<close>, \<^verbatim>\<open>currentDelay\<close>, \<^verbatim>\<open>lastError\<close>.\<close>

record LoopState =
  attempt :: int
  currentDelay :: JSNumber
  lastError :: "ResilientFetchError option"

text \<open>
  How a piece of code is left other than by running to its end: \<^verbatim>\<open>return\<close> or
  \<^verbatim>\<open>throw\<close>. The loop body yields \<open>None\<close> when it ends in \<^verbatim>\<open>continue\<close>, the loop
  when its condition turns false.
\<close>

datatype Completion = Return Response | Throw ResilientFetchError

type_synonym Outcome = "Completion option \<times> LoopState \<times> Event list"

text \<open>
  The four lines every retry path repeats: \<^verbatim>\<open>console.log\<close>, \<^verbatim>\<open>await delay(currentDelay)\<close>,
  \<^verbatim>\<open>currentDelay *= backoffFactor\<close>, \<^verbatim>\<open>continue\<close>. The argument is the end of the
  logged line.
\<close>

definition retryStep :: "ResilientFetchOptions \<Rightarrow> LoopState \<Rightarrow> RetryCause \<Rightarrow> Outcome" where
  "retryStep options st cause =
     (None,
      st\<lparr>currentDelay := jsTimes (currentDelay st) (backoffFactorOf options)\<rparr>,
      [ConsoleLog (attempt st) (retriesOf options) cause, DelayMs (currentDelay st)])"

text \<open>The catch clause, lines 149 to 193, for the caught value \<open>error\<close>.\<close>

definition catchBlock :: "ResilientFetchOptions \<Rightarrow> World \<Rightarrow> LoopState \<Rightarrow> Thrown \<Rightarrow> Outcome" where
  "catchBlock options world st error =
     (if signalAborted options (AtCatch (attempt st)) then
        (Some (Throw (mkError ''Request was aborted'' aborted None)), st, [])
      else if controllerAborted options world (attempt st) then
        (let st1 = st\<lparr>lastError := Some (mkError ''Request timed out'' timeout None)\<rparr> in
         if of_int (attempt st) < maxAttempts options then retryStep options st1 AfterTimeout
         else (Some (Throw (mkError ''Request timed out'' timeout None)), st1, []))
      else
        (case error of
           TypeError m \<Rightarrow>
             (let st1 = st\<lparr>lastError := Some (mkError ''Network request failed'' network None)\<rparr> in
              if of_int (attempt st) < maxAttempts options
              then retryStep options st1 AfterNetworkError
              else (Some (Throw (mkError ''Network request failed'' network None)), st1, []))
         | Resilient e \<Rightarrow> (Some (Throw e), st, [])
         | OtherError m \<Rightarrow> (Some (Throw (mkError m network None)), st, [])
         | NonError \<Rightarrow> (Some (Throw (mkError ''Unknown network error'' network None)), st, [])))"

text \<open>
  The try block, lines 113 to 147, once \<^verbatim>\<open>fetch\<close> has resolved. Its final
  \<^verbatim>\<open>throw\<close> is inside the try block, so the error it throws is caught by the catch clause
  of the same attempt.
\<close>

definition onResponse :: "ResilientFetchOptions \<Rightarrow> World \<Rightarrow> LoopState \<Rightarrow> Response \<Rightarrow> Outcome" where
  "onResponse options world st response =
     (let serverError = mkError (''HTTP error '' @ showNat (httpStatus response)) server
                          (Some (httpStatus response)) in
      if ok response then (Some (Return response), st, [])
      else if httpStatus response \<in> set (retryOnStatusesOf options) then
        (let st1 = st\<lparr>lastError := Some serverError\<rparr> in
         if of_int (attempt st) < maxAttempts options
         then retryStep options st1 (AfterStatus (httpStatus response))
         else catchBlock options world st1 (Resilient serverError))
      else catchBlock options world st (Resilient serverError))"

text \<open>One run of the loop body after the check of the caller's signal: lines 108 to 193.\<close>

definition attemptBody :: "ResilientFetchOptions \<Rightarrow> World \<Rightarrow> LoopState \<Rightarrow> Outcome" where
  "attemptBody options world st =
     (case fetch world (attempt st) of
        Resolves response \<Rightarrow> onResponse options world st response
      | Rejects error \<Rightarrow> catchBlock options world st error)"

text \<open>
  The \<^verbatim>\<open>for\<close> loop of lines 95 to 194, from the state \<open>st\<close> on. The result \<open>None\<close>
  means that the loop ended because \<^verbatim>\<open>attempt <= maxAttempts\<close> was false.
\<close>

function attemptLoop :: "ResilientFetchOptions \<Rightarrow> World \<Rightarrow> LoopState \<Rightarrow> Outcome" where
  "attemptLoop options world st =
     (if of_int (attempt st) \<le> maxAttempts options then
        if signalAborted options (AtStart (attempt st)) then
          (Some (Throw (mkError ''Request was aborted'' aborted None)), st, [])
        else
          (case attemptBody options world st of
             (Some done, st1, evs) \<Rightarrow> (Some done, st1, Fetch (attempt st) # evs)
           | (None, st1, evs) \<Rightarrow>
               (case attemptLoop options world (st1\<lparr>attempt := attempt st + 1\<rparr>) of
                  (result, st2, evs2) \<Rightarrow> (result, st2, Fetch (attempt st) # evs @ evs2)))
      else (None, st, []))"
  by pat_completeness auto
termination
  by (relation "measure (\<lambda>(options, world, st). nat (\<lfloor>maxAttempts options\<rfloor> + 1 - attempt st))")
    (auto simp: le_floor_iff)

declare attemptLoop.simps [simp del]

text \<open>The loop variables as lines 91 to 95 initialise them.\<close>

definition initialState :: "ResilientFetchOptions \<Rightarrow> LoopState" where
  "initialState options =
     \<lparr>attempt = 1, currentDelay = retryDelayMsOf options, lastError = None\<rparr>"

text \<open>
  \<^verbatim>\<open>resilientFetch(url, options)\<close>: the thrown error or the returned response, and the
  trace. The last line is the statement after the loop (line 197).
\<close>

definition resilientFetch ::
  "ResilientFetchOptions \<Rightarrow> World \<Rightarrow> (ResilientFetchError + Response) \<times> Event list" where
  "resilientFetch options world =
     (case attemptLoop options world (initialState options) of
        (Some (Return response), st, evs) \<Rightarrow> (Inr response, evs)
      | (Some (Throw e), st, evs) \<Rightarrow> (Inl e, evs)
      | (None, st, evs) \<Rightarrow>
          (Inl (case lastError st of Some e \<Rightarrow> e
                | None \<Rightarrow> mkError ''Request failed'' network None), evs))"

text \<open>
  Readings of a trace: the attempts that invoked the issuer, and the trace without its
  console lines.
\<close>

definition fetches :: "Event list \<Rightarrow> int list" where
  "fetches evs = concat (map (\<lambda>e. case e of Fetch k \<Rightarrow> [k] | _ \<Rightarrow> []) evs)"

definition withoutLogs :: "Event list \<Rightarrow> Event list" where
  "withoutLogs evs = filter (\<lambda>e. case e of ConsoleLog a r c \<Rightarrow> False | _ \<Rightarrow> True) evs"

text \<open>
  The value of \<^verbatim>\<open>currentDelay\<close> after \<open>i\<close> retries: \<^verbatim>\<open>retryDelayMs\<close>, multiplied
  \<open>i\<close> times by \<^verbatim>\<open>backoffFactor\<close>, one product after the other.
\<close>

definition currentDelayAfter :: "ResilientFetchOptions \<Rightarrow> nat \<Rightarrow> JSNumber" where
  "currentDelayAfter options i =
     ((\<lambda>d. jsTimes d (backoffFactorOf options)) ^^ i) (retryDelayMsOf options)"

subsection \<open>Scenarios\<close>

text \<open>
  Concrete options and worlds, used to run the model: \<open>noOptions\<close> is the call with
  \<^verbatim>\<open>{}\<close>, where every default applies.
\<close>

definition noOptions :: ResilientFetchOptions where
  "noOptions = \<lparr>timeoutMs = None, retries = None, retryDelayMs = None, backoffFactor = None,
                abortSignal = None, retryOnStatuses = None\<rparr>"

definition networkDown :: World where
  "networkDown = \<lparr>fetch = (\<lambda>k. Rejects (TypeError ''Network request failed'')),
                  timerFired = (\<lambda>k. False)\<rparr>"

definition socketHangUp :: World where
  "socketHangUp = \<lparr>fetch = (\<lambda>k. Rejects (OtherError ''socket hang up'')),
                   timerFired = (\<lambda>k. False)\<rparr>"

definition unavailable :: World where
  "unavailable = \<lparr>fetch = (\<lambda>k. Resolves \<lparr>httpStatus = 503\<rparr>), timerFired = (\<lambda>k. False)\<rparr>"

definition unavailableTimedOut :: World where
  "unavailableTimedOut =
     \<lparr>fetch = (\<lambda>k. Resolves \<lparr>httpStatus = 503\<rparr>), timerFired = (\<lambda>k. k = 3)\<rparr>"

definition okay :: World where
  "okay = \<lparr>fetch = (\<lambda>k. Resolves \<lparr>httpStatus = 200\<rparr>), timerFired = (\<lambda>k. False)\<rparr>"

definition notFound :: World where
  "notFound = \<lparr>fetch = (\<lambda>k. Resolves \<lparr>httpStatus = 404\<rparr>), timerFired = (\<lambda>k. False)\<rparr>"

definition notFoundTimedOut :: World where
  "notFoundTimedOut =
     \<lparr>fetch = (\<lambda>k. Resolves \<lparr>httpStatus = 404\<rparr>), timerFired = (\<lambda>k. k = 1)\<rparr>"

definition hangs :: World where
  "hangs = \<lparr>fetch = (\<lambda>k. Rejects (OtherError ''Aborted'')), timerFired = (\<lambda>k. True)\<rparr>"

definition cancelledBeforeCall :: ResilientFetchOptions where
  "cancelledBeforeCall = noOptions\<lparr>abortSignal := Some (\<lambda>p. True)\<rparr>"

definition cancelledAfterResponse :: ResilientFetchOptions where
  "cancelledAfterResponse = noOptions\<lparr>abortSignal := Some (\<lambda>p. p \<noteq> AtStart 1)\<rparr>"

definition cancelledInSecondAttempt :: ResilientFetchOptions where
  "cancelledInSecondAttempt =
     noOptions\<lparr>abortSignal := Some (\<lambda>p. case p of AtStart k \<Rightarrow> 2 < k | AtCatch k \<Rightarrow> 2 \<le> k)\<rparr>"

definition flakyThenCancelled :: World where
  "flakyThenCancelled =
     \<lparr>fetch = (\<lambda>k. if k = 1 then Rejects (TypeError ''Network request failed'')
                    else Rejects (OtherError ''Aborted'')),
      timerFired = (\<lambda>k. k = 2)\<rparr>"



definition negativeRetries :: ResilientFetchOptions where
  "negativeRetries = noOptions\<lparr>retries := Some (- 1)\<rparr>"

definition halfRetry :: ResilientFetchOptions where
  "halfRetry = noOptions\<lparr>retries := Some (1 / 2)\<rparr>"

definition retryOnOk :: ResilientFetchOptions where
  "retryOnOk = noOptions\<lparr>retryOnStatuses := Some [200]\<rparr>"

definition tenthTripled :: ResilientFetchOptions where
  "tenthTripled =
     noOptions\<lparr>retries := Some 3,
               retryDelayMs := Some (Finite (3602879701896397 / 36028797018963968)),
               backoffFactor := Some (Finite 3)\<rparr>"

section \<open>Properties of the attempt loop\<close>

subsection \<open>Numbers\<close>

text \<open>
  The exponent that \<open>floorLog2\<close> computes is the one the rounding needs. The other lemmas
  let the simplifier evaluate \<open>roundDouble\<close> on numerals; the double nearest to 0.1, for one, is
  \<open>3602879701896397 / 2^55\<close>.
\<close>

lemma floorLog2_bounds:
  assumes "0 < x"
  shows "pow2 (floorLog2 x) \<le> x \<and> x < pow2 (floorLog2 x + 1)"
proof (cases "1 \<le> x")
  case True
  let ?n = "\<lfloor>x\<rfloor>"
  from True have n: "0 < ?n" by simp
  from bitlen_bounds [OF n] have lo: "2 ^ nat (bitlen ?n - 1) \<le> ?n" and hi: "?n < 2 ^ nat (bitlen ?n)"
    by simp_all
  from n have b: "1 \<le> bitlen ?n" by (simp add: bitlen_def floorlog_def)
  have "(2::rat) ^ nat (bitlen ?n - 1) \<le> of_int ?n" using lo by simp
  also have "(of_int ?n :: rat) \<le> x" by (rule of_int_floor_le)
  finally have l: "(2::rat) ^ nat (bitlen ?n - 1) \<le> x" .
  from hi have n1: "?n + 1 \<le> 2 ^ nat (bitlen ?n)" by simp
  have "x < of_int (?n + 1)" by linarith
  also have "(of_int (?n + 1) :: rat) \<le> 2 ^ nat (bitlen ?n)"
    using n1 by (simp del: of_int_add)
  finally have h: "x < (2::rat) ^ nat (bitlen ?n)" .
  from True b l h show ?thesis by (simp add: floorLog2_def pow2_def)
next
  case False
  let ?c = "\<lceil>1 / x\<rceil>"
  let ?j = "bitlen (?c - 1)"
  from False assms have y: "1 < 1 / x" by simp
  then have c: "2 \<le> ?c" by linarith
  then have c1: "0 < ?c - 1" by simp
  from bitlen_bounds [OF c1] have lo: "2 ^ nat (?j - 1) \<le> ?c - 1" and hi: "?c - 1 < 2 ^ nat ?j"
    by simp_all
  from c1 have j: "1 \<le> ?j" by (simp add: bitlen_def floorlog_def)
  from hi have cj: "?c \<le> 2 ^ nat ?j" by simp
  have "1 / x \<le> of_int ?c" by (rule le_of_int_ceiling)
  also have "(of_int ?c :: rat) \<le> 2 ^ nat ?j" using cj by simp
  finally have "1 / x \<le> (2::rat) ^ nat ?j" .
  with assms have l: "1 / 2 ^ nat ?j \<le> x"
    by (simp add: field_simps)
  have "(2::rat) ^ nat (?j - 1) \<le> of_int (?c - 1)" using lo by (simp del: of_int_diff)
  also have "(of_int (?c - 1) :: rat) < 1 / x" by linarith
  finally have "(2::rat) ^ nat (?j - 1) < 1 / x" .
  with assms have h: "x < 1 / 2 ^ nat (?j - 1)"
    by (simp add: field_simps)
  have e: "floorLog2 x = - ?j" using False by (simp add: floorLog2_def)
  have "pow2 (- ?j) = 1 / 2 ^ nat ?j" using j by (simp add: pow2_def)
  moreover have "pow2 (- ?j + 1) = 1 / 2 ^ nat (?j - 1)"
  proof (cases "?j = 1")
    case True
    then show ?thesis by (simp add: pow2_def)
  next
    case False
    with j have "nat (- (- ?j + 1)) = nat (?j - 1)" "\<not> 0 \<le> - ?j + 1" by simp_all
    then show ?thesis by (simp add: pow2_def)
  qed
  ultimately show ?thesis using l h e by simp
qed

lemma floor_numeral_fraction [simp]:
  "\<lfloor>(numeral a :: rat) / numeral b\<rfloor> = numeral a div numeral b"
  using floor_divide_of_int_eq [of "numeral a" "numeral b", where ?'a = rat] by simp

lemma ceiling_numeral_fraction [simp]:
  "\<lceil>(numeral a :: rat) / numeral b\<rceil> = - ((- numeral a) div numeral b)"
proof -
  have "\<lceil>(numeral a :: rat) / numeral b\<rceil> = - \<lfloor>- (of_int (numeral a) / of_int (numeral b) :: rat)\<rfloor>"
    by (simp add: ceiling_def)
  also have "- (of_int (numeral a) / of_int (numeral b) :: rat) = of_int (- numeral a) / of_int (numeral b)"
    by simp
  also have "\<lfloor>(of_int (- numeral a) / of_int (numeral b) :: rat)\<rfloor> = (- numeral a) div numeral b"
    by (rule floor_divide_of_int_eq)
  finally show ?thesis .
qed

lemma floor_neg_numeral_fraction [simp]:
  "\<lfloor>- ((numeral a :: rat) / numeral b)\<rfloor> = (- numeral a) div numeral b"
  using floor_divide_of_int_eq [of "- numeral a" "numeral b", where ?'a = rat] by simp

lemma floor_one_fraction [simp]: "\<lfloor>(1 :: rat) / numeral b\<rfloor> = 1 div numeral b"
  using floor_divide_of_int_eq [of 1 "numeral b", where ?'a = rat] by simp

lemma ceiling_one_fraction [simp]: "\<lceil>(1 :: rat) / numeral b\<rceil> = - ((- 1) div numeral b)"
proof -
  have "\<lceil>(1 :: rat) / numeral b\<rceil> = - \<lfloor>(of_int (- 1) / of_int (numeral b) :: rat)\<rfloor>"
    by (simp add: ceiling_def)
  also have "\<lfloor>(of_int (- 1) / of_int (numeral b) :: rat)\<rfloor> = (- 1) div numeral b"
    by (rule floor_divide_of_int_eq)
  finally show ?thesis .
qed

lemmas number_defs = roundDouble_def floorLog2_def roundHalfEven_def pow2_def compute_bitlen Let_def

lemma roundDouble_examples:
  "roundDouble (1 / 10) = Finite (3602879701896397 / 36028797018963968)"
  "roundDouble 3000 = Finite 3000"
  "roundDouble (- (5 / 2)) = Finite (- (5 / 2))"
  by (simp_all add: number_defs)

lemma jsTimes_overflow: "jsTimes (Finite (2 ^ 1023)) (Finite 2) = PosInfinity"
  by (simp add: number_defs)


subsection \<open>One run of the loop body\<close>

text \<open>
  How the body of an attempt ends: in a retry (logging, waiting, scaling the delay), or
  in a \<^verbatim>\<open>return\<close> or a \<^verbatim>\<open>throw\<close> without further events.
\<close>

lemma catchBlock_continue:
  assumes "catchBlock options world st error = (None, st1, evs)"
  shows "of_int (attempt st) < maxAttempts options \<and> attempt st1 = attempt st
         \<and> currentDelay st1 = jsTimes (currentDelay st) (backoffFactorOf options)
         \<and> (\<exists>c. evs = [ConsoleLog (attempt st) (retriesOf options) c, DelayMs (currentDelay st)])
         \<and> (lastError st1 = Some (mkError ''Request timed out'' timeout None)
            \<or> lastError st1 = Some (mkError ''Network request failed'' network None))"
  using assms
  by (auto simp: catchBlock_def retryStep_def Let_def split: if_splits Thrown.splits)

lemma catchBlock_done:
  assumes "catchBlock options world st error = (Some c, st1, evs)"
  shows "evs = [] \<and> attempt st1 = attempt st \<and> (\<exists>e. c = Throw e)"
  using assms
  by (auto simp: catchBlock_def retryStep_def Let_def split: if_splits Thrown.splits)

lemma onResponse_continue:
  assumes "onResponse options world st response = (None, st1, evs)"
  shows "of_int (attempt st) < maxAttempts options \<and> attempt st1 = attempt st
         \<and> currentDelay st1 = jsTimes (currentDelay st) (backoffFactorOf options)
         \<and> (\<exists>c. evs = [ConsoleLog (attempt st) (retriesOf options) c, DelayMs (currentDelay st)])
         \<and> (lastError st1 = Some (mkError ''Request timed out'' timeout None)
            \<or> lastError st1 = Some (mkError ''Network request failed'' network None)
            \<or> lastError st1 = Some (mkError (''HTTP error '' @ showNat (httpStatus response)) server
                                      (Some (httpStatus response))))"
  using assms
  by (auto simp: onResponse_def retryStep_def Let_def split: if_splits dest!: catchBlock_continue)

lemma onResponse_done:
  assumes "onResponse options world st response = (Some c, st1, evs)"
  shows "evs = [] \<and> attempt st1 = attempt st"
  using assms
  by (auto simp: onResponse_def retryStep_def Let_def split: if_splits dest!: catchBlock_done)

lemma attemptBody_continue:
  assumes "attemptBody options world st = (None, st1, evs)"
  shows "of_int (attempt st) < maxAttempts options \<and> attempt st1 = attempt st
         \<and> currentDelay st1 = jsTimes (currentDelay st) (backoffFactorOf options)
         \<and> (\<exists>c. evs = [ConsoleLog (attempt st) (retriesOf options) c, DelayMs (currentDelay st)])"
  using assms
  by (auto simp: attemptBody_def split: FetchOutcome.splits
           dest: catchBlock_continue onResponse_continue)

lemma attemptBody_continue_error:
  assumes "attemptBody options world st = (None, st1, evs)"
  shows "lastError st1 = Some (mkError ''Request timed out'' timeout None)
       \<or> lastError st1 = Some (mkError ''Network request failed'' network None)
       \<or> (\<exists>r. fetch world (attempt st) = Resolves r
              \<and> lastError st1 = Some (mkError (''HTTP error '' @ showNat (httpStatus r)) server
                                        (Some (httpStatus r))))"
proof (cases "fetch world (attempt st)")
  case (Resolves r)
  with assms have "onResponse options world st r = (None, st1, evs)"
    by (simp add: attemptBody_def)
  from onResponse_continue [OF this] Resolves show ?thesis by blast
next
  case (Rejects error)
  with assms have "catchBlock options world st error = (None, st1, evs)"
    by (simp add: attemptBody_def)
  from catchBlock_continue [OF this] show ?thesis by blast
qed

lemma attemptBody_done:
  assumes "attemptBody options world st = (Some c, st1, evs)"
  shows "evs = []"
  using assms
  by (auto simp: attemptBody_def split: FetchOutcome.splits
           dest: catchBlock_done onResponse_done)

lemma attemptBody_throw:
  assumes "attemptBody options world st = (Some (Throw e), st1, evs)"
  shows "fetch world (attempt st) = Rejects (Resilient e)
       \<or> e = mkError ''Request was aborted'' aborted None
       \<or> e = mkError ''Request timed out'' timeout None
       \<or> e = mkError ''Network request failed'' network None
       \<or> (\<exists>m. fetch world (attempt st) = Rejects (OtherError m) \<and> e = mkError m network None)
       \<or> e = mkError ''Unknown network error'' network None
       \<or> (\<exists>r. fetch world (attempt st) = Resolves r
              \<and> e = mkError (''HTTP error '' @ showNat (httpStatus r)) server (Some (httpStatus r)))"
  using assms
  by (auto simp: attemptBody_def onResponse_def catchBlock_def retryStep_def Let_def
           split: FetchOutcome.splits if_splits Thrown.splits)




lemma rejected_while_cancelled:
  assumes "fetch world (attempt st) = Rejects error"
    and "signalAborted options (AtCatch (attempt st))"
  shows "attemptBody options world st =
           (Some (Throw (mkError ''Request was aborted'' aborted None)), st, [])"
  using assms by (simp add: attemptBody_def catchBlock_def)

lemma rejected_plain:
  assumes "fetch world (attempt st) = Rejects error"
    and "\<not> signalAborted options (AtCatch (attempt st))"
    and "\<not> timerFired world (attempt st)"
  shows "attemptBody options world st =
     (case error of
        TypeError m \<Rightarrow>
          (if of_int (attempt st) < maxAttempts options
           then retryStep options
                  (st\<lparr>lastError := Some (mkError ''Network request failed'' network None)\<rparr>)
                  AfterNetworkError
           else (Some (Throw (mkError ''Network request failed'' network None)),
                 st\<lparr>lastError := Some (mkError ''Network request failed'' network None)\<rparr>, []))
      | Resilient e \<Rightarrow> (Some (Throw e), st, [])
      | OtherError m \<Rightarrow> (Some (Throw (mkError m network None)), st, [])
      | NonError \<Rightarrow> (Some (Throw (mkError ''Unknown network error'' network None)), st, []))"
  using assms
  by (simp add: attemptBody_def catchBlock_def controllerAborted_def Let_def split: Thrown.splits)

subsection \<open>Unfolding the loop\<close>

text \<open>
  The four ways one iteration goes, as equations and as a case distinction.
\<close>

lemma attemptLoop_exit:
  "\<not> of_int (attempt st) \<le> maxAttempts options \<Longrightarrow>
   attemptLoop options world st = (None, st, [])"
  by (simp add: attemptLoop.simps)

lemma attemptLoop_aborted:
  "of_int (attempt st) \<le> maxAttempts options \<Longrightarrow>
   signalAborted options (AtStart (attempt st)) \<Longrightarrow>
   attemptLoop options world st =
     (Some (Throw (mkError ''Request was aborted'' aborted None)), st, [])"
  by (simp add: attemptLoop.simps)

lemma attemptLoop_done:
  assumes "of_int (attempt st) \<le> maxAttempts options"
    and "\<not> signalAborted options (AtStart (attempt st))"
    and "attemptBody options world st = (Some c, st1, evs)"
  shows "attemptLoop options world st = (Some c, st1, [Fetch (attempt st)])"
  using assms attemptBody_done [OF assms(3)] by (simp add: attemptLoop.simps)

lemma attemptLoop_continue:
  assumes "of_int (attempt st) \<le> maxAttempts options"
    and "\<not> signalAborted options (AtStart (attempt st))"
    and "attemptBody options world st = (None, st1, evs)"
    and "attemptLoop options world (st1\<lparr>attempt := attempt st + 1\<rparr>) = (r, st2, evs2)"
  shows "attemptLoop options world st = (r, st2, Fetch (attempt st) # evs @ evs2)"
  using assms by (simp add: attemptLoop.simps)

lemma attemptLoop_cases:
  obtains
    (exit) "\<not> of_int (attempt st) \<le> maxAttempts options"
      "attemptLoop options world st = (None, st, [])"
  | (aborted) "of_int (attempt st) \<le> maxAttempts options"
      "signalAborted options (AtStart (attempt st))"
      "attemptLoop options world st =
         (Some (Throw (mkError ''Request was aborted'' aborted None)), st, [])"
  | (finished) c st1 where "of_int (attempt st) \<le> maxAttempts options"
      "\<not> signalAborted options (AtStart (attempt st))"
      "attemptBody options world st = (Some c, st1, [])"
      "attemptLoop options world st = (Some c, st1, [Fetch (attempt st)])"
  | (continue) st1 l r st2 evs2 where "of_int (attempt st) < maxAttempts options"
      "\<not> signalAborted options (AtStart (attempt st))"
      "attemptBody options world st =
         (None, st1, [ConsoleLog (attempt st) (retriesOf options) l, DelayMs (currentDelay st)])"
      "attempt st1 = attempt st"
      "currentDelay st1 = jsTimes (currentDelay st) (backoffFactorOf options)"
      "attemptLoop options world (st1\<lparr>attempt := attempt st + 1\<rparr>) = (r, st2, evs2)"
      "attemptLoop options world st =
         (r, st2, Fetch (attempt st) # ConsoleLog (attempt st) (retriesOf options) l
                  # DelayMs (currentDelay st) # evs2)"
proof (cases "of_int (attempt st) \<le> maxAttempts options")
  case False
  then show ?thesis using exit attemptLoop_exit by blast
next
  case le: True
  show ?thesis
  proof (cases "signalAborted options (AtStart (attempt st))")
    case True
    then show ?thesis using aborted le attemptLoop_aborted by blast
  next
    case na: False
    obtain c st1 evs where body: "attemptBody options world st = (c, st1, evs)"
      by (cases "attemptBody options world st") auto
    show ?thesis
    proof (cases c)
      case None
      obtain r st2 evs2 where
        rec: "attemptLoop options world (st1\<lparr>attempt := attempt st + 1\<rparr>) = (r, st2, evs2)"
        by (cases "attemptLoop options world (st1\<lparr>attempt := attempt st + 1\<rparr>)") auto
      from body None have b: "attemptBody options world st = (None, st1, evs)" by simp
      from attemptBody_continue [OF b] obtain l where
        f: "of_int (attempt st) < maxAttempts options" "attempt st1 = attempt st"
           "currentDelay st1 = jsTimes (currentDelay st) (backoffFactorOf options)"
           "evs = [ConsoleLog (attempt st) (retriesOf options) l, DelayMs (currentDelay st)]"
        by blast
      from attemptLoop_continue [OF le na b rec] f b rec na
      show ?thesis by (intro continue [of st1 l r st2 evs2]) simp_all
    next
      case (Some d)
      with body have b: "attemptBody options world st = (Some d, st1, evs)" by simp
      from attemptBody_done [OF b] have "evs = []" .
      with attemptLoop_done [OF le na b] b le na show ?thesis
        by (intro finished [of d st1]) simp_all
    qed
  qed
qed

lemma attemptLoop_first_event:
  assumes "of_int (attempt st) \<le> maxAttempts options"
    and "attemptLoop options world st = (c, stf, evs)"
  shows "if signalAborted options (AtStart (attempt st))
         then evs = [] \<and> c = Some (Throw (mkError ''Request was aborted'' aborted None))
         else \<exists>evs'. evs = Fetch (attempt st) # evs'"
proof (cases rule: attemptLoop_cases [of st options world])
  case exit
  with assms show ?thesis by simp
next
  case aborted
  with assms show ?thesis by simp
next
  case (finished d st1)
  with assms show ?thesis by auto
next
  case (continue st1 l r st2 evs2)
  with assms show ?thesis by auto
qed

subsection \<open>Readings of a trace\<close>

lemma fetches_simps [simp]:
  "fetches [] = []"
  "fetches (Fetch k # evs) = k # fetches evs"
  "fetches (ConsoleLog a r c # evs) = fetches evs"
  "fetches (DelayMs d # evs) = fetches evs"
  by (simp_all add: fetches_def)

lemma withoutLogs_simps [simp]:
  "withoutLogs [] = []"
  "withoutLogs (Fetch k # evs) = Fetch k # withoutLogs evs"
  "withoutLogs (ConsoleLog a r c # evs) = withoutLogs evs"
  "withoutLogs (DelayMs d # evs) = DelayMs d # withoutLogs evs"
  by (simp_all add: withoutLogs_def)



subsection \<open>Induction over the attempts\<close>

text \<open>
  Each proof is by induction on the number of attempts that are left, the integer part of
  \<^verbatim>\<open>maxAttempts + 1 - attempt\<close>.
\<close>

lemma attempts_left_less:
  assumes "of_int (a::int) < (m::rat)"
  shows "nat (\<lfloor>m\<rfloor> + 1 - (a + 1)) < nat (\<lfloor>m\<rfloor> + 1 - a)"
proof -
  from assms have "a \<le> \<lfloor>m\<rfloor>" by (simp add: le_floor_iff)
  then show ?thesis by simp
qed

lemma iterate_step:
  assumes "(a::int) < k"
  shows "(g ^^ nat (k - (a + 1))) (g x) = (g ^^ nat (k - a)) x"
proof -
  from assms have "nat (k - a) = Suc (nat (k - (a + 1)))" by simp
  then show ?thesis by (simp add: funpow_swap1)
qed

lemma attemptLoop_fetch_bound:
  "int (length (fetches (snd (snd (attemptLoop options world st)))))
     \<le> max 0 (\<lfloor>maxAttempts options\<rfloor> + 1 - attempt st)"
proof (induction st rule: measure_induct_rule
         [where f = "\<lambda>st. nat (\<lfloor>maxAttempts options\<rfloor> + 1 - attempt st)"])
  case (less st)
  show ?case
  proof (cases rule: attemptLoop_cases [of st options world])
    case exit
    then show ?thesis by simp
  next
    case aborted
    then show ?thesis by simp
  next
    case (finished c st1)
    then have "attempt st \<le> \<lfloor>maxAttempts options\<rfloor>" by (simp add: le_floor_iff)
    with finished show ?thesis by simp
  next
    case (continue st1 l r st2 evs2)
    let ?st' = "st1\<lparr>attempt := attempt st + 1\<rparr>"
    from continue(1) have le: "attempt st \<le> \<lfloor>maxAttempts options\<rfloor>" by (simp add: le_floor_iff)
    have "int (length (fetches (snd (snd (attemptLoop options world ?st')))))
            \<le> max 0 (\<lfloor>maxAttempts options\<rfloor> + 1 - attempt ?st')"
      using attempts_left_less [OF continue(1)] by (intro less.IH) simp
    with continue le show ?thesis by simp
  qed
qed

lemma attemptLoop_no_fallthrough:
  assumes "maxAttempts options = of_int M"
  shows "attempt st \<le> M \<Longrightarrow> fst (attemptLoop options world st) \<noteq> None"
proof (induction st rule: measure_induct_rule
         [where f = "\<lambda>st. nat (\<lfloor>maxAttempts options\<rfloor> + 1 - attempt st)"])
  case (less st)
  show ?case
  proof (cases rule: attemptLoop_cases [of st options world])
    case exit
    with less.prems assms show ?thesis by simp
  next
    case aborted
    then show ?thesis by simp
  next
    case (finished c st1)
    then show ?thesis by simp
  next
    case (continue st1 l r st2 evs2)
    let ?st' = "st1\<lparr>attempt := attempt st + 1\<rparr>"
    from continue(1) assms have "attempt ?st' \<le> M" by simp
    with attempts_left_less [OF continue(1)]
    have "fst (attemptLoop options world ?st') \<noteq> None"
      by (intro less.IH) simp_all
    with continue show ?thesis by simp
  qed
qed

lemma attemptLoop_fallthrough:
  assumes "attemptLoop options world st = (None, stf, evs)"
  shows "\<not> of_int (attempt st) \<le> maxAttempts options \<and> stf = st \<and> evs = []
       \<or> lastError stf = Some (mkError ''Request timed out'' timeout None)
       \<or> lastError stf = Some (mkError ''Network request failed'' network None)
       \<or> (\<exists>k r. Fetch k \<in> set evs \<and> fetch world k = Resolves r
              \<and> lastError stf = Some (mkError (''HTTP error '' @ showNat (httpStatus r)) server
                                        (Some (httpStatus r))))"
  using assms
proof (induction st arbitrary: evs rule: measure_induct_rule
         [where f = "\<lambda>st. nat (\<lfloor>maxAttempts options\<rfloor> + 1 - attempt st)"])
  case (less st)
  show ?case
  proof (cases rule: attemptLoop_cases [of st options world])
    case exit
    with less.prems show ?thesis by simp
  next
    case aborted
    with less.prems show ?thesis by simp
  next
    case (finished c st1)
    with less.prems show ?thesis by simp
  next
    case (continue st1 l r st2 evs2)
    let ?st' = "st1\<lparr>attempt := attempt st + 1\<rparr>"
    from continue less.prems have rec: "attemptLoop options world ?st' = (None, stf, evs2)"
      and evs: "evs = Fetch (attempt st) # ConsoleLog (attempt st) (retriesOf options) l
                        # DelayMs (currentDelay st) # evs2"
      by simp_all
    have "\<not> of_int (attempt ?st') \<le> maxAttempts options \<and> stf = ?st' \<and> evs2 = []
       \<or> lastError stf = Some (mkError ''Request timed out'' timeout None)
       \<or> lastError stf = Some (mkError ''Network request failed'' network None)
       \<or> (\<exists>k r. Fetch k \<in> set evs2 \<and> fetch world k = Resolves r
              \<and> lastError stf = Some (mkError (''HTTP error '' @ showNat (httpStatus r)) server
                                        (Some (httpStatus r))))"
      using attempts_left_less [OF continue(1)] rec by (intro less.IH) simp_all
    moreover
    from attemptBody_continue_error [OF continue(3)]
    have "lastError ?st' = Some (mkError ''Request timed out'' timeout None)
       \<or> lastError ?st' = Some (mkError ''Network request failed'' network None)
       \<or> (\<exists>r. fetch world (attempt st) = Resolves r
              \<and> lastError ?st' = Some (mkError (''HTTP error '' @ showNat (httpStatus r)) server
                                        (Some (httpStatus r))))"
      by simp
    ultimately show ?thesis using evs by auto
  qed
qed

lemma attemptLoop_reach:
  assumes "attemptLoop options world st = (res, stf, pre @ Fetch k # post)"
  shows "\<exists>st'. attempt st' = k \<and> attempt st \<le> k \<and> of_int k \<le> maxAttempts options
           \<and> \<not> signalAborted options (AtStart k)
           \<and> currentDelay st' = ((\<lambda>d. jsTimes d (backoffFactorOf options)) ^^ nat (k - attempt st))
                                   (currentDelay st)
           \<and> attemptLoop options world st' = (res, stf, Fetch k # post)
           \<and> (pre = [] \<and> k = attempt st
               \<or> attempt st < k
                 \<and> (\<exists>pre' c. pre = pre' @ [Fetch (k - 1), ConsoleLog (k - 1) (retriesOf options) c,
                       DelayMs (((\<lambda>d. jsTimes d (backoffFactorOf options)) ^^ nat (k - attempt st - 1))
                                  (currentDelay st))]))"
  using assms
proof (induction st arbitrary: pre rule: measure_induct_rule
         [where f = "\<lambda>st. nat (\<lfloor>maxAttempts options\<rfloor> + 1 - attempt st)"])
  case (less st)
  let ?g = "\<lambda>d. jsTimes d (backoffFactorOf options)"
  show ?case
  proof (cases rule: attemptLoop_cases [of st options world])
    case exit
    with less.prems show ?thesis by simp
  next
    case aborted
    with less.prems show ?thesis by simp
  next
    case (finished c st1)
    with less.prems have "pre = []" "k = attempt st" "post = []"
      by (auto simp: Cons_eq_append_conv)
    with finished less.prems show ?thesis
      by (intro exI [of _ st]) simp
  next
    case (continue st1 l r st2 evs2)
    let ?st' = "st1\<lparr>attempt := attempt st + 1\<rparr>"
    from continue less.prems have res: "r = res" "st2 = stf"
      and evs: "Fetch (attempt st) # ConsoleLog (attempt st) (retriesOf options) l
                  # DelayMs (currentDelay st) # evs2 = pre @ Fetch k # post" by simp_all
    from continue(1) have le: "of_int (attempt st) \<le> maxAttempts options" by simp
    show ?thesis
    proof (cases pre)
      case Nil
      with evs have "k = attempt st"
        "post = ConsoleLog (attempt st) (retriesOf options) l # DelayMs (currentDelay st) # evs2"
        by auto
      with Nil continue less.prems le show ?thesis
        by (intro exI [of _ st]) simp
    next
      case (Cons x pre1)
      with evs obtain pre2 where
        pre: "pre = Fetch (attempt st) # ConsoleLog (attempt st) (retriesOf options) l
                      # DelayMs (currentDelay st) # pre2"
        and evs2: "evs2 = pre2 @ Fetch k # post"
        by (auto simp: Cons_eq_append_conv)
      have "\<exists>st'. attempt st' = k \<and> attempt ?st' \<le> k \<and> of_int k \<le> maxAttempts options
           \<and> \<not> signalAborted options (AtStart k)
           \<and> currentDelay st' = (?g ^^ nat (k - attempt ?st')) (currentDelay ?st')
           \<and> attemptLoop options world st' = (res, stf, Fetch k # post)
           \<and> (pre2 = [] \<and> k = attempt ?st'
               \<or> attempt ?st' < k
                 \<and> (\<exists>pre' c. pre2 = pre' @ [Fetch (k - 1), ConsoleLog (k - 1) (retriesOf options) c,
                       DelayMs ((?g ^^ nat (k - attempt ?st' - 1)) (currentDelay ?st'))]))"
        using attempts_left_less [OF continue(1)] continue(6) res evs2
        by (intro less.IH) simp_all
      then obtain st' where st': "attempt st' = k" "attempt st + 1 \<le> k"
        "of_int k \<le> maxAttempts options"
        "\<not> signalAborted options (AtStart k)"
        "currentDelay st' = (?g ^^ nat (k - (attempt st + 1))) (?g (currentDelay st))"
        "attemptLoop options world st' = (res, stf, Fetch k # post)"
        and alt: "pre2 = [] \<and> k = attempt st + 1
               \<or> attempt st + 1 < k
                 \<and> (\<exists>pre' c. pre2 = pre' @ [Fetch (k - 1), ConsoleLog (k - 1) (retriesOf options) c,
                       DelayMs ((?g ^^ nat (k - (attempt st + 1) - 1)) (?g (currentDelay st)))])"
        using continue(5) by auto
      from st'(2) have lt: "attempt st < k" by simp
      have cd: "currentDelay st' = (?g ^^ nat (k - attempt st)) (currentDelay st)"
        using st'(5) iterate_step [OF lt, of ?g] by simp
      have tail: "\<exists>pre' c. pre = pre' @ [Fetch (k - 1), ConsoleLog (k - 1) (retriesOf options) c,
                       DelayMs ((?g ^^ nat (k - attempt st - 1)) (currentDelay st))]"
        using alt
      proof
        assume "pre2 = [] \<and> k = attempt st + 1"
        with pre show ?thesis by simp
      next
        assume a: "attempt st + 1 < k
                 \<and> (\<exists>pre' c. pre2 = pre' @ [Fetch (k - 1), ConsoleLog (k - 1) (retriesOf options) c,
                       DelayMs ((?g ^^ nat (k - (attempt st + 1) - 1)) (?g (currentDelay st)))])"
        then obtain pre' c where p: "pre2 = pre' @ [Fetch (k - 1),
                       ConsoleLog (k - 1) (retriesOf options) c,
                       DelayMs ((?g ^^ nat (k - (attempt st + 1) - 1)) (?g (currentDelay st)))]"
          by blast
        from a have "attempt st < k - 1" by simp
        from iterate_step [OF this, of ?g "currentDelay st"]
        have "(?g ^^ nat (k - (attempt st + 1) - 1)) (?g (currentDelay st))
                = (?g ^^ nat (k - attempt st - 1)) (currentDelay st)"
          by (simp add: algebra_simps)
        with p have "pre2 = pre' @ [Fetch (k - 1), ConsoleLog (k - 1) (retriesOf options) c,
                       DelayMs ((?g ^^ nat (k - attempt st - 1)) (currentDelay st))]"
          by simp
        with pre show ?thesis by simp
      qed
      from st' lt cd tail show ?thesis
        by (intro exI [of _ st']) simp
    qed
  qed
qed

lemma attemptLoop_last:
  assumes "attemptLoop options world st = (Some c, stf, evs)"
  shows "c = Throw (mkError ''Request was aborted'' aborted None)
       \<or> (\<exists>pre st' st1. evs = pre @ [Fetch (attempt st')]
              \<and> attemptBody options world st' = (Some c, st1, []))"
  using assms
proof (induction st arbitrary: evs rule: measure_induct_rule
         [where f = "\<lambda>st. nat (\<lfloor>maxAttempts options\<rfloor> + 1 - attempt st)"])
  case (less st)
  show ?case
  proof (cases rule: attemptLoop_cases [of st options world])
    case exit
    with less.prems show ?thesis by simp
  next
    case aborted
    with less.prems show ?thesis by simp
  next
    case (finished d st1)
    with less.prems have "attemptBody options world st = (Some c, st1, [])"
      "evs = [] @ [Fetch (attempt st)]"
      by simp_all
    then show ?thesis by blast
  next
    case (continue st1 l r st2 evs2)
    let ?st' = "st1\<lparr>attempt := attempt st + 1\<rparr>"
    from continue less.prems have rec: "attemptLoop options world ?st' = (Some c, stf, evs2)"
      and evs: "evs = Fetch (attempt st) # ConsoleLog (attempt st) (retriesOf options) l
                        # DelayMs (currentDelay st) # evs2"
      by simp_all
    have "c = Throw (mkError ''Request was aborted'' aborted None)
       \<or> (\<exists>pre st' st1. evs2 = pre @ [Fetch (attempt st')]
              \<and> attemptBody options world st' = (Some c, st1, []))"
      using attempts_left_less [OF continue(1)] rec by (intro less.IH) simp_all
    then show ?thesis
    proof
      assume "c = Throw (mkError ''Request was aborted'' aborted None)"
      then show ?thesis ..
    next
      assume "\<exists>pre st' st1. evs2 = pre @ [Fetch (attempt st')]
              \<and> attemptBody options world st' = (Some c, st1, [])"
      then obtain pre st' st1' where "evs2 = pre @ [Fetch (attempt st')]"
        "attemptBody options world st' = (Some c, st1', [])" by blast
      with evs have "evs = (Fetch (attempt st) # ConsoleLog (attempt st) (retriesOf options) l
                              # DelayMs (currentDelay st) # pre) @ [Fetch (attempt st')]"
        "attemptBody options world st' = (Some c, st1', [])" by simp_all
      then show ?thesis by blast
    qed
  qed
qed


subsection \<open>From the loop to the call\<close>

lemma resilientFetch_loop:
  assumes "resilientFetch options world = (result, evs)"
  obtains c stf where "attemptLoop options world (initialState options) = (c, stf, evs)"
    and "result = (case c of Some (Return r) \<Rightarrow> Inr r | Some (Throw e) \<Rightarrow> Inl e
                   | None \<Rightarrow> Inl (case lastError stf of Some e \<Rightarrow> e
                                     | None \<Rightarrow> mkError ''Request failed'' network None))"
proof -
  obtain c stf evs' where l: "attemptLoop options world (initialState options) = (c, stf, evs')"
    by (cases "attemptLoop options world (initialState options)") auto
  with assms have "evs' = evs"
    "result = (case c of Some (Return r) \<Rightarrow> Inr r | Some (Throw e) \<Rightarrow> Inl e
                   | None \<Rightarrow> Inl (case lastError stf of Some e \<Rightarrow> e
                                     | None \<Rightarrow> mkError ''Request failed'' network None))"
    by (auto simp: resilientFetch_def split: option.splits Completion.splits)
  with l that show thesis by blast
qed

lemma resilientFetch_of_loop:
  assumes "attemptLoop options world (initialState options) = (Some c, stf, evs)"
  shows "resilientFetch options world = ((case c of Return r \<Rightarrow> Inr r | Throw e \<Rightarrow> Inl e), evs)"
  using assms by (simp add: resilientFetch_def split: Completion.splits)

lemma resilientFetch_throw_origin:
  assumes "resilientFetch options world = (Inl e, evs)"
  shows "e = mkError ''Request failed'' network None
       \<or> e = mkError ''Request was aborted'' aborted None
       \<or> e = mkError ''Request timed out'' timeout None
       \<or> e = mkError ''Network request failed'' network None
       \<or> (\<exists>k r. Fetch k \<in> set evs \<and> fetch world k = Resolves r
              \<and> e = mkError (''HTTP error '' @ showNat (httpStatus r)) server (Some (httpStatus r)))
       \<or> (\<exists>pre st st1. evs = pre @ [Fetch (attempt st)]
              \<and> attemptBody options world st = (Some (Throw e), st1, []))"
proof -
  from resilientFetch_loop [OF assms] obtain c stf where
    loop: "attemptLoop options world (initialState options) = (c, stf, evs)"
    and result: "Inl e = (case c of Some (Return r) \<Rightarrow> Inr r | Some (Throw e) \<Rightarrow> Inl e
                   | None \<Rightarrow> Inl (case lastError stf of Some e \<Rightarrow> e
                                     | None \<Rightarrow> mkError ''Request failed'' network None))"
    by blast
  show ?thesis
  proof (cases c)
    case None
    from attemptLoop_fallthrough [OF loop [unfolded None]] result None
    show ?thesis by (auto simp: initialState_def)
  next
    case (Some d)
    with result have d: "d = Throw e" by (cases d) simp_all
    from attemptLoop_last [OF loop [unfolded Some d]] show ?thesis by (auto simp: d)
  qed
qed

lemma resilientFetch_throw_origin_integer:
  assumes "resilientFetch options world = (Inl e, evs)"
    and "retriesOf options = of_int n"
  shows "e = mkError ''Request failed'' network None
       \<or> e = mkError ''Request was aborted'' aborted None
       \<or> (\<exists>pre st st1. evs = pre @ [Fetch (attempt st)]
              \<and> attemptBody options world st = (Some (Throw e), st1, []))"
proof -
  from resilientFetch_loop [OF assms(1)] obtain c stf where
    loop: "attemptLoop options world (initialState options) = (c, stf, evs)"
    and result: "Inl e = (case c of Some (Return r) \<Rightarrow> Inr r | Some (Throw e) \<Rightarrow> Inl e
                   | None \<Rightarrow> Inl (case lastError stf of Some e \<Rightarrow> e
                                     | None \<Rightarrow> mkError ''Request failed'' network None))"
    by blast
  from assms(2) have m: "maxAttempts options = of_int (n + 1)" by (simp add: maxAttempts_def)
  show ?thesis
  proof (cases c)
    case None
    have "\<not> attempt (initialState options) \<le> n + 1"
    proof
      assume "attempt (initialState options) \<le> n + 1"
      from attemptLoop_no_fallthrough [OF m this, of world] loop None show False by simp
    qed
    with m have "\<not> of_int (attempt (initialState options)) \<le> maxAttempts options"
      by (simp del: of_int_add)
    from attemptLoop_exit [OF this, of world] loop have "stf = initialState options" by simp
    with result None show ?thesis by (simp add: initialState_def)
  next
    case (Some d)
    with result have d: "d = Throw e" by (cases d) simp_all
    from attemptLoop_last [OF loop [unfolded Some d]] show ?thesis by (auto simp: d)
  qed
qed

subsection \<open>Running the scenarios\<close>

lemmas run_defs = resilientFetch_def initialState_def attemptLoop.simps attemptBody_def
  onResponse_def catchBlock_def retryStep_def ok_def maxAttempts_def retriesOf_def
  retryOnStatusesOf_def signalAborted_def controllerAborted_def backoffFactorOf_def
  retryDelayMsOf_def showNat.simps digit_def noOptions_def number_defs

lemma noOptions_values:
  "retriesOf noOptions = 2" "maxAttempts noOptions = 3" "retryDelayMsOf noOptions = Finite 1500"
  "backoffFactorOf noOptions = Finite 2"
  "retryOnStatusesOf noOptions = [408, 429, 500, 502, 503, 504]"
  "signalAborted noOptions p = False"
  by (simp_all add: retriesOf_def maxAttempts_def retryDelayMsOf_def backoffFactorOf_def
        retryOnStatusesOf_def signalAborted_def noOptions_def)

lemma run_networkDown:
  "resilientFetch noOptions networkDown =
     (Inl (mkError ''Network request failed'' network None),
      [Fetch 1, ConsoleLog 1 2 AfterNetworkError, DelayMs (Finite 1500),
       Fetch 2, ConsoleLog 2 2 AfterNetworkError, DelayMs (Finite 3000),
       Fetch 3])"
  by (simp add: run_defs networkDown_def)

lemma run_socketHangUp:
  "resilientFetch noOptions socketHangUp = (Inl (mkError ''socket hang up'' network None), [Fetch 1])"
  by (simp add: run_defs socketHangUp_def)

lemma run_unavailable:
  "resilientFetch noOptions unavailable =
     (Inl (mkError ''HTTP error 503'' server (Some 503)),
      [Fetch 1, ConsoleLog 1 2 (AfterStatus 503), DelayMs (Finite 1500),
       Fetch 2, ConsoleLog 2 2 (AfterStatus 503), DelayMs (Finite 3000),
       Fetch 3])"
  by (simp add: run_defs unavailable_def)

lemma run_unavailableTimedOut:
  "resilientFetch noOptions unavailableTimedOut =
     (Inl (mkError ''Request timed out'' timeout None),
      [Fetch 1, ConsoleLog 1 2 (AfterStatus 503), DelayMs (Finite 1500),
       Fetch 2, ConsoleLog 2 2 (AfterStatus 503), DelayMs (Finite 3000),
       Fetch 3])"
  by (simp add: run_defs unavailableTimedOut_def)

lemma run_retryOnOk:
  "resilientFetch retryOnOk okay = (Inr \<lparr>httpStatus = 200\<rparr>, [Fetch 1])"
  by (simp add: run_defs retryOnOk_def okay_def)

lemma run_notFound:
  "resilientFetch noOptions notFound = (Inl (mkError ''HTTP error 404'' server (Some 404)), [Fetch 1])"
  by (simp add: run_defs notFound_def)

lemma run_cancelledAfterResponse:
  "resilientFetch cancelledAfterResponse notFound =
     (Inl (mkError ''Request was aborted'' aborted None), [Fetch 1])"
  by (simp add: run_defs cancelledAfterResponse_def notFound_def)

lemma run_notFoundTimedOut:
  "resilientFetch noOptions notFoundTimedOut =
     (Inl (mkError ''HTTP error 404'' server (Some 404)),
      [Fetch 1, ConsoleLog 1 2 AfterTimeout, DelayMs (Finite 1500), Fetch 2])"
  by (simp add: run_defs notFoundTimedOut_def)

lemma run_hangs:
  "resilientFetch noOptions hangs =
     (Inl (mkError ''Request timed out'' timeout None),
      [Fetch 1, ConsoleLog 1 2 AfterTimeout, DelayMs (Finite 1500),
       Fetch 2, ConsoleLog 2 2 AfterTimeout, DelayMs (Finite 3000),
       Fetch 3])"
  by (simp add: run_defs hangs_def)

lemma run_cancelledBeforeCall:
  "resilientFetch cancelledBeforeCall networkDown =
     (Inl (mkError ''Request was aborted'' aborted None), [])"
  by (simp add: run_defs cancelledBeforeCall_def)

lemma run_flakyThenCancelled:
  "resilientFetch cancelledInSecondAttempt flakyThenCancelled =
     (Inl (mkError ''Request was aborted'' aborted None),
      [Fetch 1, ConsoleLog 1 2 AfterNetworkError, DelayMs (Finite 1500), Fetch 2])"
  by (simp add: run_defs cancelledInSecondAttempt_def flakyThenCancelled_def)


lemma run_negativeRetries:
  "resilientFetch negativeRetries networkDown = (Inl (mkError ''Request failed'' network None), [])"
  by (simp add: run_defs negativeRetries_def)

lemma loop_halfRetry:
  "attemptLoop halfRetry networkDown (initialState halfRetry) =
     (None,
      \<lparr>attempt = 2, currentDelay = Finite 3000,
        lastError = Some (mkError ''Network request failed'' network None)\<rparr>,
      [Fetch 1, ConsoleLog 1 (1 / 2) AfterNetworkError, DelayMs (Finite 1500)])"
  by (simp add: run_defs halfRetry_def networkDown_def)

lemma run_halfRetry:
  "resilientFetch halfRetry networkDown =
     (Inl (mkError ''Network request failed'' network None),
      [Fetch 1, ConsoleLog 1 (1 / 2) AfterNetworkError, DelayMs (Finite 1500)])"
  by (simp add: resilientFetch_def loop_halfRetry)

lemma run_tenthTripled:
  "resilientFetch tenthTripled networkDown =
     (Inl (mkError ''Network request failed'' network None),
      [Fetch 1, ConsoleLog 1 3 AfterNetworkError,
       DelayMs (Finite (3602879701896397 / 36028797018963968)),
       Fetch 2, ConsoleLog 2 3 AfterNetworkError,
       DelayMs (Finite (1351079888211149 / 4503599627370496)),
       Fetch 3, ConsoleLog 3 3 AfterNetworkError,
       DelayMs (Finite (4053239664633447 / 4503599627370496)),
       Fetch 4])"
  by (simp add: run_defs tenthTripled_def networkDown_def)

section \<open>The specified properties\<close>

text \<open>
  \<^bold>\<open>C1\<close> (external cancellation takes precedence). Let attempt \<open>k\<close> of a call invoke
  the request issuer, let that invocation fail with any thrown value, and let the
  caller's signal be aborted when the catch clause reads it. Then the call throws the
  \<open>aborted\<close> error and the trace ends with that invocation: no wait and no further
  attempt follow. Nothing is assumed about the timer of the attempt, about the thrown
  value or about the attempts that remain, so the outcome is the same when the timeout
  fired as well and when the budget is not used up.
\<close>

theorem external_cancellation_precedence:
  assumes "resilientFetch options world = (result, evs)"
    and "Fetch k \<in> set evs"
    and "fetch world k = Rejects error"
    and "signalAborted options (AtCatch k)"
  shows "result = Inl (mkError ''Request was aborted'' aborted None)
         \<and> (\<exists>pre. evs = pre @ [Fetch k])"
proof -
  from assms(2) obtain pre post where evs: "evs = pre @ Fetch k # post"
    by (auto dest: split_list)
  from resilientFetch_loop [OF assms(1)] obtain c stf where
    loop: "attemptLoop options world (initialState options) = (c, stf, evs)"
    and result: "result = (case c of Some (Return r) \<Rightarrow> Inr r | Some (Throw e) \<Rightarrow> Inl e
                   | None \<Rightarrow> Inl (case lastError stf of Some e \<Rightarrow> e
                                     | None \<Rightarrow> mkError ''Request failed'' network None))"
    by blast
  from attemptLoop_reach [OF loop [unfolded evs]] obtain st' where
    st': "attempt st' = k" "of_int k \<le> maxAttempts options"
         "\<not> signalAborted options (AtStart k)"
         "attemptLoop options world st' = (c, stf, Fetch k # post)"
    by blast
  from assms(3,4) st'(1) have "attemptBody options world st' =
           (Some (Throw (mkError ''Request was aborted'' aborted None)), st', [])"
    by (intro rejected_while_cancelled) simp_all
  from attemptLoop_done [OF _ _ this] st'
  have "c = Some (Throw (mkError ''Request was aborted'' aborted None))" "post = []"
    by simp_all
  with result evs show ?thesis by simp
qed

text \<open>
  The theorem at a call with the default two retries whose first attempt fails with a
  \<^verbatim>\<open>TypeError\<close> and whose second attempt is cancelled by the caller while its timer
  has fired too.
\<close>

theorem external_cancellation_precedence_witness:
  "Fetch 2 \<in> set (snd (resilientFetch cancelledInSecondAttempt flakyThenCancelled))
   \<and> fetch flakyThenCancelled 2 = Rejects (OtherError ''Aborted'')
   \<and> signalAborted cancelledInSecondAttempt (AtCatch 2)
   \<and> timerFired flakyThenCancelled 2
   \<and> 2 < maxAttempts cancelledInSecondAttempt
   \<and> fst (resilientFetch cancelledInSecondAttempt flakyThenCancelled)
       = Inl (mkError ''Request was aborted'' aborted None)
   \<and> last (snd (resilientFetch cancelledInSecondAttempt flakyThenCancelled)) = Fetch 2"
proof -
  let ?evs = "snd (resilientFetch cancelledInSecondAttempt flakyThenCancelled)"
  have run: "resilientFetch cancelledInSecondAttempt flakyThenCancelled
               = (fst (resilientFetch cancelledInSecondAttempt flakyThenCancelled), ?evs)"
    by simp
  have h2: "Fetch 2 \<in> set ?evs" by (simp add: run_flakyThenCancelled)
  have h3: "fetch flakyThenCancelled 2 = Rejects (OtherError ''Aborted'')"
    by (simp add: flakyThenCancelled_def)
  have h4: "signalAborted cancelledInSecondAttempt (AtCatch 2)"
    by (simp add: signalAborted_def cancelledInSecondAttempt_def)
  have h5: "timerFired flakyThenCancelled 2" by (simp add: flakyThenCancelled_def)
  have h6: "2 < maxAttempts cancelledInSecondAttempt"
    by (simp add: maxAttempts_def retriesOf_def cancelledInSecondAttempt_def noOptions_def)
  from external_cancellation_precedence [OF run h2 h3 h4] h2 h3 h4 h5 h6
  show ?thesis by auto
qed

text \<open>
  \<^bold>\<open>C2\<close> (bounded attempts). \<open>resilientFetch\<close> is a total function: its loop was
  shown to terminate for every world, that is for every sequence of responses and
  exceptions of the issuer. For \<^verbatim>\<open>retries\<close> an integer \<open>n \<ge> 0\<close> a call invokes the
  issuer at most \<open>n + 1\<close> times, and not at all when the caller's signal is aborted
  before the first attempt.
\<close>

theorem bounded_attempts:
  assumes "retriesOf options = of_int n"
    and "0 \<le> n"
  shows "\<exists>result evs. resilientFetch options world = (result, evs)
           \<and> int (length (fetches evs)) \<le> n + 1
           \<and> (signalAborted options (AtStart 1) \<longrightarrow> fetches evs = [])"
proof -
  obtain result evs where r: "resilientFetch options world = (result, evs)"
    by (cases "resilientFetch options world") auto
  from resilientFetch_loop [OF r] obtain c stf where
    loop: "attemptLoop options world (initialState options) = (c, stf, evs)" by blast
  from assms(1) have m: "maxAttempts options = of_int (n + 1)" by (simp add: maxAttempts_def)
  then have fl: "\<lfloor>maxAttempts options\<rfloor> = n + 1" by (simp only: floor_of_int)
  from attemptLoop_fetch_bound [of options world "initialState options"] loop assms(2) fl
  have b: "int (length (fetches evs)) \<le> n + 1"
    by (simp add: initialState_def)
  have "fetches evs = []" if a: "signalAborted options (AtStart 1)"
  proof -
    from assms(2) m have "of_int (attempt (initialState options)) \<le> maxAttempts options"
      by (simp add: initialState_def)
    from attemptLoop_aborted [OF this, of world] a loop show ?thesis
      by (simp add: initialState_def)
  qed
  with r b show ?thesis by blast
qed

text \<open>
  The theorem at a call whose three attempts all fail, and at a call cancelled before it
  starts.
\<close>

theorem bounded_attempts_witness:
  "retriesOf noOptions = of_int 2
   \<and> fetches (snd (resilientFetch noOptions networkDown)) = [1, 2, 3]
   \<and> int (length (fetches (snd (resilientFetch noOptions networkDown)))) \<le> 2 + 1
   \<and> retriesOf cancelledBeforeCall = of_int 2
   \<and> signalAborted cancelledBeforeCall (AtStart 1)
   \<and> fetches (snd (resilientFetch cancelledBeforeCall networkDown)) = []"
proof -
  have h1: "retriesOf noOptions = of_int 2" by (simp add: noOptions_values)
  have h2: "retriesOf cancelledBeforeCall = of_int 2"
    by (simp add: retriesOf_def cancelledBeforeCall_def noOptions_def)
  have h3: "signalAborted cancelledBeforeCall (AtStart 1)"
    by (simp add: signalAborted_def cancelledBeforeCall_def)
  have z: "(0::int) \<le> 2" by simp
  from bounded_attempts [OF h1 z, of networkDown] bounded_attempts [OF h2 z, of networkDown]
    h1 h2 h3
  show ?thesis by (auto simp: run_networkDown)
qed

text \<open>
  \<^bold>\<open>C3\<close> (failures that are neither a cancellation nor a timeout), as the code has it,
  for \<^verbatim>\<open>retries\<close> an integer \<open>n\<close> as in the specification.
  Let attempt \<open>k\<close> invoke the issuer and the invocation fail, with the caller's signal not
  aborted and the timer of the attempt not fired. What follows depends on the thrown value.
  A \<^verbatim>\<open>TypeError\<close>, which is how \<^verbatim>\<open>fetch\<close> reports a transport fault, is retried while
  attempts remain: the call logs, waits the current backoff delay (the value of
  \<^verbatim>\<open>currentDelay\<close> after \<open>k - 1\<close> retries) and enters attempt \<open>k + 1\<close> (which invokes
  the issuer unless the caller's signal is aborted by then); at the last attempt the call
  throws the \<open>network\<close> error. Every other thrown value ends the call at once, whatever
  budget remains: a \<^verbatim>\<open>ResilientFetchError\<close> is rethrown as it is, another \<^verbatim>\<open>Error\<close> is
  wrapped as a \<open>network\<close> error with its message, and a value that is no \<^verbatim>\<open>Error\<close> as
  a \<open>network\<close> error with the message \<^verbatim>\<open>Unknown network error\<close>.
\<close>

theorem plain_failure_classification:
  assumes "retriesOf options = of_int n"
    and "resilientFetch options world = (result, pre @ Fetch k # post)"
    and "fetch world k = Rejects error"
    and "\<not> signalAborted options (AtCatch k)"
    and "\<not> timerFired world k"
  shows "case error of
           TypeError m \<Rightarrow>
             if k < n + 1
             then \<exists>post'. post = ConsoleLog k (retriesOf options) AfterNetworkError
                                # DelayMs (currentDelayAfter options (nat (k - 1)))
                                # post'
                    \<and> (if signalAborted options (AtStart (k + 1))
                       then post' = []
                            \<and> result = Inl (mkError ''Request was aborted'' aborted None)
                       else \<exists>post''. post' = Fetch (k + 1) # post'')
             else post = [] \<and> result = Inl (mkError ''Network request failed'' network None)
         | Resilient e \<Rightarrow> post = [] \<and> result = Inl e
         | OtherError m \<Rightarrow> post = [] \<and> result = Inl (mkError m network None)
         | NonError \<Rightarrow> post = [] \<and> result = Inl (mkError ''Unknown network error'' network None)"
proof -
  from assms(1) have m: "maxAttempts options = of_int (n + 1)" by (simp add: maxAttempts_def)
  from resilientFetch_loop [OF assms(2)] obtain c stf where
    loop: "attemptLoop options world (initialState options) = (c, stf, pre @ Fetch k # post)"
    and result: "result = (case c of Some (Return r) \<Rightarrow> Inr r | Some (Throw e) \<Rightarrow> Inl e
                   | None \<Rightarrow> Inl (case lastError stf of Some e \<Rightarrow> e
                                     | None \<Rightarrow> mkError ''Request failed'' network None))"
    by blast
  from attemptLoop_reach [OF loop] obtain st where
    st: "attempt st = k" "of_int k \<le> maxAttempts options"
        "\<not> signalAborted options (AtStart k)"
        "currentDelay st = currentDelayAfter options (nat (k - 1))"
        "attemptLoop options world st = (c, stf, Fetch k # post)"
    by (auto simp: initialState_def currentDelayAfter_def)
  from assms(3-5) st(1) have body: "attemptBody options world st =
     (case error of
        TypeError m \<Rightarrow>
          (if of_int (attempt st) < maxAttempts options
           then retryStep options
                  (st\<lparr>lastError := Some (mkError ''Network request failed'' network None)\<rparr>)
                  AfterNetworkError
           else (Some (Throw (mkError ''Network request failed'' network None)),
                 st\<lparr>lastError := Some (mkError ''Network request failed'' network None)\<rparr>, []))
      | Resilient e \<Rightarrow> (Some (Throw e), st, [])
      | OtherError m \<Rightarrow> (Some (Throw (mkError m network None)), st, [])
      | NonError \<Rightarrow> (Some (Throw (mkError ''Unknown network error'' network None)), st, []))"
    by (intro rejected_plain) simp_all
  have le: "of_int (attempt st) \<le> maxAttempts options"
    and na: "\<not> signalAborted options (AtStart (attempt st))"
    using st by simp_all
  have lt_iff: "of_int (attempt st) < maxAttempts options \<longleftrightarrow> k < n + 1"
    unfolding m st(1) by (rule of_int_less_iff)
  show ?thesis
  proof (cases error)
    case (TypeError msg)
    show ?thesis
    proof (cases "k < n + 1")
      case True
      let ?st1 = "st\<lparr>lastError := Some (mkError ''Network request failed'' network None)\<rparr>"
      have b: "attemptBody options world st =
           (None, ?st1\<lparr>currentDelay := jsTimes (currentDelay st) (backoffFactorOf options)\<rparr>,
            [ConsoleLog (attempt st) (retriesOf options) AfterNetworkError,
             DelayMs (currentDelay st)])"
        using body TypeError True lt_iff by (simp add: retryStep_def)
      let ?st2 = "?st1\<lparr>currentDelay := jsTimes (currentDelay st) (backoffFactorOf options),
                        attempt := attempt st + 1\<rparr>"
      obtain r st3 evs3 where rec: "attemptLoop options world ?st2 = (r, st3, evs3)"
        by (cases "attemptLoop options world ?st2") auto
      from attemptLoop_continue [OF le na b] rec st(5)
      have eq: "r = c"
        "post = ConsoleLog (attempt st) (retriesOf options) AfterNetworkError
                  # DelayMs (currentDelay st) # evs3" by simp_all
      from True have "k + 1 \<le> n + 1" by simp
      then have "(of_int (k + 1) :: rat) \<le> of_int (n + 1)" by (simp only: of_int_le_iff)
      with st(1) m have "of_int (attempt ?st2) \<le> maxAttempts options" by simp
      from attemptLoop_first_event [OF this rec] st(1)
      have "if signalAborted options (AtStart (k + 1))
            then evs3 = [] \<and> r = Some (Throw (mkError ''Request was aborted'' aborted None))
            else \<exists>evs'. evs3 = Fetch (k + 1) # evs'" by (simp cong: if_cong)
      with eq result st(1,4) TypeError True show ?thesis
        by (auto split: if_splits)
    next
      case False
      with body TypeError lt_iff have "attemptBody options world st =
           (Some (Throw (mkError ''Network request failed'' network None)),
            st\<lparr>lastError := Some (mkError ''Network request failed'' network None)\<rparr>, [])"
        by simp
      from attemptLoop_done [OF le na this] st(5) result TypeError False show ?thesis by simp
    qed
  next
    case (Resilient e)
    with body have "attemptBody options world st = (Some (Throw e), st, [])" by simp
    from attemptLoop_done [OF le na this] st(5) result Resilient show ?thesis by simp
  next
    case (OtherError msg)
    with body have "attemptBody options world st = (Some (Throw (mkError msg network None)), st, [])"
      by simp
    from attemptLoop_done [OF le na this] st(5) result OtherError show ?thesis by simp
  next
    case NonError
    with body have "attemptBody options world st =
        (Some (Throw (mkError ''Unknown network error'' network None)), st, [])" by simp
    from attemptLoop_done [OF le na this] st(5) result NonError show ?thesis by simp
  qed
qed

text \<open>
  The theorem at the first and at the last attempt of a call whose attempts all fail with
  a \<^verbatim>\<open>TypeError\<close>, and at the only attempt of a call whose issuer throws another
  \<^verbatim>\<open>Error\<close>.
\<close>

theorem plain_failure_classification_witness:
  "retriesOf noOptions = of_int 2
   \<and> fetch networkDown 1 = Rejects (TypeError ''Network request failed'')
   \<and> \<not> signalAborted noOptions (AtCatch 1)
   \<and> \<not> timerFired networkDown 1
   \<and> (1::int) < 2 + 1
   \<and> \<not> signalAborted noOptions (AtStart (1 + 1))
   \<and> take 4 (snd (resilientFetch noOptions networkDown))
       = [Fetch 1, ConsoleLog 1 (retriesOf noOptions) AfterNetworkError,
          DelayMs (currentDelayAfter noOptions (nat (1 - 1))), Fetch (1 + 1)]
   \<and> fetch networkDown 3 = Rejects (TypeError ''Network request failed'')
   \<and> \<not> (3::int) < 2 + 1
   \<and> fst (resilientFetch noOptions networkDown)
       = Inl (mkError ''Network request failed'' network None)
   \<and> fetch socketHangUp 1 = Rejects (OtherError ''socket hang up'')
   \<and> \<not> timerFired socketHangUp 1
   \<and> resilientFetch noOptions socketHangUp
       = (Inl (mkError ''socket hang up'' network None), [Fetch 1])"
proof -
  have n: "retriesOf noOptions = of_int 2" by (simp add: noOptions_values)
  have a1: "resilientFetch noOptions networkDown =
     (Inl (mkError ''Network request failed'' network None),
      [] @ Fetch 1 # [ConsoleLog 1 2 AfterNetworkError, DelayMs (Finite 1500),
       Fetch 2, ConsoleLog 2 2 AfterNetworkError, DelayMs (Finite 3000),
       Fetch 3])" by (simp add: run_networkDown)
  have a3: "resilientFetch noOptions networkDown =
     (Inl (mkError ''Network request failed'' network None),
      [Fetch 1, ConsoleLog 1 2 AfterNetworkError, DelayMs (Finite 1500),
       Fetch 2, ConsoleLog 2 2 AfterNetworkError, DelayMs (Finite 3000)]
      @ Fetch 3 # [])" by (simp add: run_networkDown)
  have b1: "resilientFetch noOptions socketHangUp
       = (Inl (mkError ''socket hang up'' network None), [] @ Fetch 1 # [])"
    by (simp add: run_socketHangUp)
  have f: "fetch networkDown 1 = Rejects (TypeError ''Network request failed'')"
    "fetch networkDown 3 = Rejects (TypeError ''Network request failed'')"
    "fetch socketHangUp 1 = Rejects (OtherError ''socket hang up'')"
    by (simp_all add: networkDown_def socketHangUp_def)
  have s: "\<not> signalAborted noOptions (AtCatch 1)" "\<not> signalAborted noOptions (AtCatch 3)"
    "\<not> signalAborted noOptions (AtStart (1 + 1))"
    by (simp_all add: noOptions_values)
  have t: "\<not> timerFired networkDown 1" "\<not> timerFired networkDown 3" "\<not> timerFired socketHangUp 1"
    by (simp_all add: networkDown_def socketHangUp_def)
  have d: "currentDelayAfter noOptions 0 = Finite 1500"
    by (simp add: currentDelayAfter_def noOptions_values)
  from plain_failure_classification [OF n a1 f(1) s(1) t(1)]
       plain_failure_classification [OF n a3 f(2) s(2) t(2)]
       plain_failure_classification [OF n b1 f(3) s(1) t(3)]
       f s t d
  show ?thesis by (auto simp: run_networkDown run_socketHangUp noOptions_values)
qed

text \<open>
  \<^bold>\<open>C3\<close>, as stated for every failure, does not hold. The issuer throws an
  \<^verbatim>\<open>Error\<close> that is no \<^verbatim>\<open>TypeError\<close>; the caller's signal is not aborted, the
  controller of the attempt is not aborted, and two of the three attempts remain. The call
  throws the \<open>network\<close> error after the first invocation, without a wait and without a
  retry.
\<close>

theorem other_exception_not_retried:
  "fetch socketHangUp 1 = Rejects (OtherError ''socket hang up'')
   \<and> \<not> signalAborted noOptions (AtCatch 1)
   \<and> \<not> controllerAborted noOptions socketHangUp 1
   \<and> 1 < maxAttempts noOptions
   \<and> resilientFetch noOptions socketHangUp
       = (Inl (mkError ''socket hang up'' network None), [Fetch 1])"
proof -
  have "fetch socketHangUp 1 = Rejects (OtherError ''socket hang up'')"
    "\<not> controllerAborted noOptions socketHangUp 1"
    by (simp_all add: socketHangUp_def controllerAborted_def noOptions_values)
  then show ?thesis by (simp add: run_socketHangUp noOptions_values)
qed



text \<open>
  \<^bold>\<open>C4\<close>, as stated with the exact product, does not hold. With \<^verbatim>\<open>retryDelayMs = 0.1\<close>
  and \<^verbatim>\<open>backoffFactor = 3\<close>, both doubles, the call waits \<open>4053239664633447 / 2^52\<close>
  milliseconds (0.9000000000000001) before attempt 4. That is neither the exact value of
  \<^verbatim>\<open>retryDelayMs * backoffFactor^2\<close> nor the double nearest to it, which is
  \<open>8106479329266893 / 2^53\<close> (0.9).
\<close>

theorem rounded_backoff_delay:
  "retryDelayMsOf tenthTripled = Finite (3602879701896397 / 36028797018963968)
   \<and> roundDouble (1 / 10) = Finite (3602879701896397 / 36028797018963968)
   \<and> backoffFactorOf tenthTripled = Finite 3
   \<and> roundDouble 3 = Finite 3
   \<and> snd (resilientFetch tenthTripled networkDown)
       = [Fetch 1, ConsoleLog 1 3 AfterNetworkError,
          DelayMs (Finite (3602879701896397 / 36028797018963968)),
          Fetch 2, ConsoleLog 2 3 AfterNetworkError,
          DelayMs (Finite (1351079888211149 / 4503599627370496)),
          Fetch 3, ConsoleLog 3 3 AfterNetworkError,
          DelayMs (Finite (4053239664633447 / 4503599627370496)),
          Fetch 4]
   \<and> (4053239664633447 / 4503599627370496 :: rat)
       \<noteq> 3602879701896397 / 36028797018963968 * 3 ^ nat (4 - 2)
   \<and> roundDouble (3602879701896397 / 36028797018963968 * 3 ^ nat (4 - 2))
       = Finite (8106479329266893 / 9007199254740992)
   \<and> (4053239664633447 / 4503599627370496 :: rat) \<noteq> 8106479329266893 / 9007199254740992"
proof -
  have "retryDelayMsOf tenthTripled = Finite (3602879701896397 / 36028797018963968)"
    "backoffFactorOf tenthTripled = Finite 3"
    by (simp_all add: retryDelayMsOf_def backoffFactorOf_def tenthTripled_def noOptions_def)
  moreover have "roundDouble (3602879701896397 / 36028797018963968 * 3 ^ nat (4 - 2))
       = Finite (8106479329266893 / 9007199254740992)"
    "roundDouble (1 / 10) = Finite (3602879701896397 / 36028797018963968)"
    "roundDouble 3 = Finite 3"
    by (simp_all add: number_defs)
  ultimately show ?thesis by (simp add: run_tenthTripled)
qed



text \<open>
  \<^bold>\<open>C5\<close>, as stated without the last two conditions, does not hold. First call: the
  issuer answers 503 on each of the three attempts and no signal is supplied, but the timer
  of the third attempt has fired when its response is handled; the error thrown at line 143
  is caught by the catch clause of the attempt, which finds the controller aborted, and the
  call throws the \<open>timeout\<close> error. Second call: \<^verbatim>\<open>retryOnStatuses\<close> lists 200 and
  the issuer answers 200; the response is ok and is returned after one attempt.
\<close>

theorem late_timer_or_ok_status:
  "retriesOf noOptions = 2
   \<and> fetch unavailableTimedOut 1 = Resolves \<lparr>httpStatus = 503\<rparr>
   \<and> fetch unavailableTimedOut 2 = Resolves \<lparr>httpStatus = 503\<rparr>
   \<and> fetch unavailableTimedOut 3 = Resolves \<lparr>httpStatus = 503\<rparr>
   \<and> 503 \<in> set (retryOnStatusesOf noOptions)
   \<and> abortSignal noOptions = None
   \<and> timerFired unavailableTimedOut 3
   \<and> resilientFetch noOptions unavailableTimedOut
       = (Inl (mkError ''Request timed out'' timeout None),
          [Fetch 1, ConsoleLog 1 2 (AfterStatus 503), DelayMs (Finite 1500),
           Fetch 2, ConsoleLog 2 2 (AfterStatus 503), DelayMs (Finite 3000),
           Fetch 3])
   \<and> retriesOf retryOnOk = 2
   \<and> fetch okay 1 = Resolves \<lparr>httpStatus = 200\<rparr>
   \<and> 200 \<in> set (retryOnStatusesOf retryOnOk)
   \<and> abortSignal retryOnOk = None
   \<and> resilientFetch retryOnOk okay = (Inr \<lparr>httpStatus = 200\<rparr>, [Fetch 1])"
proof -
  have "fetch unavailableTimedOut 1 = Resolves \<lparr>httpStatus = 503\<rparr>"
    "fetch unavailableTimedOut 2 = Resolves \<lparr>httpStatus = 503\<rparr>"
    "fetch unavailableTimedOut 3 = Resolves \<lparr>httpStatus = 503\<rparr>"
    "timerFired unavailableTimedOut 3"
    "fetch okay 1 = Resolves \<lparr>httpStatus = 200\<rparr>"
    by (simp_all add: unavailableTimedOut_def okay_def)
  moreover have "retriesOf retryOnOk = 2" "200 \<in> set (retryOnStatusesOf retryOnOk)"
    "abortSignal retryOnOk = None" "abortSignal noOptions = None"
    by (simp_all add: retriesOf_def retryOnStatusesOf_def retryOnOk_def noOptions_def)
  ultimately show ?thesis
    by (simp add: run_unavailableTimedOut run_retryOnOk noOptions_values)
qed



text \<open>
  \<^bold>\<open>C6\<close>, as stated without the last two conditions, does not hold: the error thrown
  at line 143 is caught by the catch clause of the same attempt, which reads the caller's
  signal and the controller before it rethrows. First call: the issuer answers 404 and the
  caller's signal is aborted by then; the call throws the \<open>aborted\<close> error. Second call:
  the issuer answers 404 and the timer of the first attempt has fired by then; the call
  logs, waits 1500 ms and invokes the issuer a second time.
\<close>

theorem response_handled_after_cancel_or_timeout:
  "fetch notFound 1 = Resolves \<lparr>httpStatus = 404\<rparr>
   \<and> \<not> ok \<lparr>httpStatus = 404\<rparr>
   \<and> 404 \<notin> set (retryOnStatusesOf cancelledAfterResponse)
   \<and> signalAborted cancelledAfterResponse (AtCatch 1)
   \<and> resilientFetch cancelledAfterResponse notFound
       = (Inl (mkError ''Request was aborted'' aborted None), [Fetch 1])
   \<and> fetch notFoundTimedOut 1 = Resolves \<lparr>httpStatus = 404\<rparr>
   \<and> 404 \<notin> set (retryOnStatusesOf noOptions)
   \<and> abortSignal noOptions = None
   \<and> timerFired notFoundTimedOut 1
   \<and> resilientFetch noOptions notFoundTimedOut
       = (Inl (mkError ''HTTP error 404'' server (Some 404)),
          [Fetch 1, ConsoleLog 1 2 AfterTimeout, DelayMs (Finite 1500), Fetch 2])"
proof -
  have "fetch notFound 1 = Resolves \<lparr>httpStatus = 404\<rparr>"
    "fetch notFoundTimedOut 1 = Resolves \<lparr>httpStatus = 404\<rparr>"
    "timerFired notFoundTimedOut 1" "\<not> ok \<lparr>httpStatus = 404\<rparr>"
    by (simp_all add: notFound_def notFoundTimedOut_def ok_def)
  moreover have "404 \<notin> set (retryOnStatusesOf cancelledAfterResponse)"
    "signalAborted cancelledAfterResponse (AtCatch 1)" "abortSignal noOptions = None"
    by (simp_all add: retryOnStatusesOf_def signalAborted_def cancelledAfterResponse_def
          noOptions_def)
  ultimately show ?thesis
    by (simp add: run_cancelledAfterResponse run_notFoundTimedOut noOptions_values)
qed

text \<open>
  \<^bold>\<open>C7\<close> (signal aborted before the call). For \<^verbatim>\<open>retries\<close> \<open>\<ge> 0\<close>, a call whose
  signal is aborted when the first attempt begins throws the \<open>aborted\<close> error with an
  empty trace: the issuer is not invoked.
\<close>

theorem pre_triggered_cancellation:
  assumes "0 \<le> retriesOf options"
    and "signalAborted options (AtStart 1)"
  shows "resilientFetch options world = (Inl (mkError ''Request was aborted'' aborted None), [])"
proof -
  from assms(1) have "of_int (attempt (initialState options)) \<le> maxAttempts options"
    by (simp add: initialState_def maxAttempts_def)
  from attemptLoop_aborted [OF this, of world] assms(2)
  have "attemptLoop options world (initialState options) =
     (Some (Throw (mkError ''Request was aborted'' aborted None)), initialState options, [])"
    by (simp add: initialState_def)
  from resilientFetch_of_loop [OF this] show ?thesis by simp
qed

text \<open>
  The theorem at a call with the defaults and a signal that is aborted from the start.
\<close>

theorem pre_triggered_cancellation_witness:
  "0 \<le> retriesOf cancelledBeforeCall
   \<and> signalAborted cancelledBeforeCall (AtStart 1)
   \<and> resilientFetch cancelledBeforeCall networkDown
       = (Inl (mkError ''Request was aborted'' aborted None), [])"
proof -
  have h1: "0 \<le> retriesOf cancelledBeforeCall"
    by (simp add: retriesOf_def cancelledBeforeCall_def noOptions_def)
  have h2: "signalAborted cancelledBeforeCall (AtStart 1)"
    by (simp add: signalAborted_def cancelledBeforeCall_def)
  from pre_triggered_cancellation [OF h1 h2, of networkDown] h1 h2 show ?thesis by simp
qed

text \<open>
  \<^bold>\<open>C8\<close> (no \<open>offline\<close> error). Every error a call throws has the code
  \<open>timeout\<close>, \<open>aborted\<close>, \<open>network\<close> or \<open>server\<close>, unless it is a
  \<^verbatim>\<open>ResilientFetchError\<close> that the issuer itself threw in one of the attempts, which
  the catch clause passes on as it is.
\<close>

theorem offline_never_constructed:
  assumes "resilientFetch options world = (Inl e, evs)"
  shows "code e \<in> {timeout, aborted, network, server}
         \<or> (\<exists>k. Fetch k \<in> set evs \<and> fetch world k = Rejects (Resilient e))"
proof -
  from resilientFetch_throw_origin [OF assms]
  consider "code e \<in> {timeout, aborted, network, server}"
    | pre st st1 where "evs = pre @ [Fetch (attempt st)]"
        "attemptBody options world st = (Some (Throw e), st1, [])"
    by (auto simp: mkError_def)
  then show ?thesis
  proof cases
    case 1
    then show ?thesis ..
  next
    case 2
    from 2(1) have "Fetch (attempt st) \<in> set evs" by simp
    with attemptBody_throw [OF 2(2)] show ?thesis by (auto simp: mkError_def)
  qed
qed

text \<open>
  The theorem at a call whose attempts all time out.
\<close>

theorem offline_never_constructed_witness:
  "resilientFetch noOptions hangs
     = (Inl (mkError ''Request timed out'' timeout None),
        [Fetch 1, ConsoleLog 1 2 AfterTimeout, DelayMs (Finite 1500),
         Fetch 2, ConsoleLog 2 2 AfterTimeout, DelayMs (Finite 3000),
         Fetch 3])
   \<and> code (mkError ''Request timed out'' timeout None) \<in> {timeout, aborted, network, server}"
  using offline_never_constructed [OF run_hangs] run_hangs
  by (simp add: mkError_def)

text \<open>
  \<^bold>\<open>C9\<close> (the status field), for \<^verbatim>\<open>retries\<close> an integer as in the specification. An
  error thrown by a call, unless it is a \<^verbatim>\<open>ResilientFetchError\<close> that the issuer itself
  threw, either has one of the codes \<open>timeout\<close>, \<open>aborted\<close>, \<open>network\<close> and no
  status, or has the code \<open>server\<close> and the status of the response that the last
  invocation of the issuer returned. Errors are values of the model: nothing changes one
  after \<open>mkError\<close> has built it.
\<close>

theorem status_only_on_server_errors:
  assumes "retriesOf options = of_int n"
    and "resilientFetch options world = (Inl e, evs)"
  shows "(\<exists>k. Fetch k \<in> set evs \<and> fetch world k = Rejects (Resilient e))
         \<or> code e \<in> {timeout, aborted, network} \<and> status e = None
         \<or> code e = server
           \<and> (\<exists>pre k r. evs = pre @ [Fetch k] \<and> fetch world k = Resolves r
                  \<and> status e = Some (httpStatus r))"
proof -
  from resilientFetch_throw_origin_integer [OF assms(2,1)]
  consider "e = mkError ''Request failed'' network None"
    | "e = mkError ''Request was aborted'' aborted None"
    | pre st st1 where "evs = pre @ [Fetch (attempt st)]"
        "attemptBody options world st = (Some (Throw e), st1, [])"
    by blast
  then show ?thesis
  proof cases
    case 1
    then show ?thesis by (simp add: mkError_def)
  next
    case 2
    then show ?thesis by (simp add: mkError_def)
  next
    case 3
    from 3(1) have "Fetch (attempt st) \<in> set evs" by simp
    with attemptBody_throw [OF 3(2)] 3(1) show ?thesis by (auto simp: mkError_def)
  qed
qed

text \<open>
  The theorem at a call whose issuer answers 404.
\<close>

theorem status_only_on_server_errors_witness:
  "retriesOf noOptions = of_int 2
   \<and> resilientFetch noOptions notFound
     = (Inl (mkError ''HTTP error 404'' server (Some 404)), [] @ [Fetch 1])
   \<and> code (mkError ''HTTP error 404'' server (Some 404)) = server
   \<and> fetch notFound 1 = Resolves \<lparr>httpStatus = 404\<rparr>
   \<and> status (mkError ''HTTP error 404'' server (Some 404))
       = Some (httpStatus \<lparr>httpStatus = 404\<rparr>)"
proof -
  have n: "retriesOf noOptions = of_int 2" by (simp add: noOptions_values)
  note status_only_on_server_errors [OF n run_notFound] run_notFound n
  moreover have "fetch notFound 1 = Resolves \<lparr>httpStatus = 404\<rparr>" by (simp add: notFound_def)
  ultimately show ?thesis by (simp add: mkError_def)
qed



text \<open>
  \<^bold>\<open>C10\<close>, as stated for every \<^verbatim>\<open>retries\<close> \<open>\<ge> 0\<close>, does not hold. With
  \<^verbatim>\<open>retries = 0.5\<close> the first attempt, failing with a \<^verbatim>\<open>TypeError\<close>, finds
  \<open>1 < 1.5\<close> and retries; after the wait the loop ends by its condition, since
  \<open>2 \<le> 1.5\<close> is false, and the statement after the loop throws the recorded
  \<^verbatim>\<open>lastError\<close>.
\<close>

theorem fallback_reached_with_half_retry:
  "0 \<le> retriesOf halfRetry
   \<and> retriesOf halfRetry = 1 / 2
   \<and> fetch networkDown 1 = Rejects (TypeError ''Network request failed'')
   \<and> attemptLoop halfRetry networkDown (initialState halfRetry)
       = (None,
          \<lparr>attempt = 2, currentDelay = Finite 3000,
            lastError = Some (mkError ''Network request failed'' network None)\<rparr>,
          [Fetch 1, ConsoleLog 1 (1 / 2) AfterNetworkError, DelayMs (Finite 1500)])
   \<and> resilientFetch halfRetry networkDown
       = (Inl (mkError ''Network request failed'' network None),
          [Fetch 1, ConsoleLog 1 (1 / 2) AfterNetworkError, DelayMs (Finite 1500)])"
proof -
  have "retriesOf halfRetry = 1 / 2"
    by (simp add: retriesOf_def halfRetry_def noOptions_def)
  moreover have "fetch networkDown 1 = Rejects (TypeError ''Network request failed'')"
    by (simp add: networkDown_def)
  ultimately show ?thesis by (simp add: loop_halfRetry run_halfRetry)
qed

end
